theory Spec2Isabelle
  imports Main "HOL-Library.Word"
begin

unbundle bit_operations_syntax

section \<open>Machine constants\<close>

text \<open>
  The virtual-memory core of the kernel: \<^verbatim>\<open>kern/vm/vm.c\<close> (page table and
  fault handler) and \<^verbatim>\<open>kern/vm/addrspace.c\<close> (address spaces and regions).
  All addresses and page-table entries are 32-bit machine words.
  \<^verbatim>\<open>as_define_stack\<close>, the unused \<^verbatim>\<open>create_pt_l1\<close> and the SMP stub
  \<^verbatim>\<open>vm_tlbshootdown\<close> play no part in the properties proved here.
\<close>

text \<open>
  Modelled from the spec: the constants and macros of the kernel headers
  (\<^verbatim>\<open>vm.h\<close>, \<^verbatim>\<open>machine/tlb.h\<close>, \<^verbatim>\<open>elf.h\<close>, \<^verbatim>\<open>kern/errno.h\<close>) that the two
  source files include. The spec fixes PAGE_SIZE = 4096, PAGE_FRAME = 0xFFFFF000,
  L1_PT_SIZE = 2048, L2_PT_SIZE = 512 and the EntryLo layout
  \<^verbatim>\<open>(PFN << 12) | DIRTY? | VALID\<close>; the remaining values are the ones of the
  MIPS port the code is written for. \<^verbatim>\<open>PADDR_TO_KVADDR\<close> and
  \<^verbatim>\<open>KVADDR_TO_PADDR\<close> are the two directions of the direct-mapped kernel window.
\<close>

type_synonym vaddr_t = "32 word"
type_synonym paddr_t = "32 word"

definition PAGE_SIZE :: "32 word" where
  "PAGE_SIZE = 4096"

definition PAGE_FRAME :: "32 word" where
  "PAGE_FRAME = 0xfffff000"

definition L1_PT_SIZE :: nat where
  "L1_PT_SIZE = 2048"

definition L2_PT_SIZE :: nat where
  "L2_PT_SIZE = 512"

definition MIPS_KSEG0 :: "32 word" where
  "MIPS_KSEG0 = 0x80000000"

definition USERSTACK :: "32 word" where
  "USERSTACK = 0x80000000"

definition TLBLO_DIRTY :: "32 word" where
  "TLBLO_DIRTY = 0x00000400"

definition TLBLO_VALID :: "32 word" where
  "TLBLO_VALID = 0x00000200"

definition NUM_TLB :: nat where
  "NUM_TLB = 64"

definition PF_R :: "32 word" where
  "PF_R = 4"

definition PF_W :: "32 word" where
  "PF_W = 2"

definition PF_X :: "32 word" where
  "PF_X = 1"

definition VM_FAULT_READ :: int where
  "VM_FAULT_READ = 0"

definition VM_FAULT_WRITE :: int where
  "VM_FAULT_WRITE = 1"

definition VM_FAULT_READONLY :: int where
  "VM_FAULT_READONLY = 2"

definition PADDR_TO_KVADDR :: "paddr_t \<Rightarrow> vaddr_t" where
  "PADDR_TO_KVADDR paddr = paddr + MIPS_KSEG0"

definition KVADDR_TO_PADDR :: "vaddr_t \<Rightarrow> paddr_t" where
  "KVADDR_TO_PADDR kvaddr = kvaddr - MIPS_KSEG0"

text \<open>
  Modelled from the spec: the return values of the \<^verbatim>\<open>int\<close>-returning kernel
  functions. \<open>OK\<close> is 0, the others are the errno codes the code uses (distinct
  values of \<^verbatim>\<open>kern/errno.h\<close>). \<open>PANIC\<close> stands for a failed \<^verbatim>\<open>KASSERT\<close> or a
  NULL dereference, after which the kernel does not return.
\<close>

datatype retval = OK | ENOMEM | EFAULT | EINVAL | PANIC

section \<open>Page-table indices\<close>

text \<open>
  \<^verbatim>\<open>vm_fault\<close>, lines 151-152:
  \<^verbatim>\<open>uint32_t msb = faultaddress >> 21; uint32_t lsb = (faultaddress << 11) >> 23;\<close>
  The shifts are 32-bit unsigned shifts: bits shifted out on the left are lost.
\<close>

definition l1_index :: "vaddr_t \<Rightarrow> 32 word" where
  "l1_index addr = drop_bit 21 addr"

definition l2_index :: "vaddr_t \<Rightarrow> 32 word" where
  "l2_index addr = drop_bit 23 (push_bit 11 addr)"

section \<open>Kernel state and the external allocators\<close>

text \<open>
  A page of physical memory is its PAGE_SIZE bytes. A page-table entry is a
  hardware EntryLo word; a second-level table is an array of L2_PT_SIZE entries,
  the first-level table an array of L1_PT_SIZE pointers to second-level tables
  (\<open>None\<close> is NULL). Arrays are functions from the index; the code only uses
  indices below the array sizes.
\<close>

type_synonym page = "8 word list"
type_synonym l2_table = "nat \<Rightarrow> paddr_t"
type_synonym pagetable = "nat \<Rightarrow> l2_table option"

text \<open>\<^verbatim>\<open>struct region\<close>; its field \<^verbatim>\<open>size\<close> is \<open>size_r\<close> here, and the \<^verbatim>\<open>next\<close> link
  is the order of the region list.\<close>

record region =
  as_vbase :: vaddr_t
  size_r :: "32 word"
  flags :: "32 word"
  og_flags :: "32 word"

text \<open>\<^verbatim>\<open>struct addrspace\<close>: \<open>pagetable = None\<close> and \<open>regions = []\<close> are NULL pointers.\<close>

record addrspace =
  pagetable :: "pagetable option"
  regions :: "region list"
  stackbase :: vaddr_t

record proc =
  p_addrspace :: "addrspace option"

datatype tlb_op = TLB_Write "32 word" "32 word" nat | TLB_Random "32 word" "32 word"

text \<open>
  The state of the kernel outside the address spaces. \<open>mem\<close> holds the contents of
  the page at each kernel virtual page address, \<open>allocated\<close> the pages handed out
  by \<^verbatim>\<open>alloc_kpages\<close> and not yet freed. The two scripts are the answers the
  external allocators give to the coming calls. \<open>junk_l1\<close> and \<open>junk_l2\<close> are the
  contents of memory returned by \<^verbatim>\<open>kmalloc\<close>, which does not clear it. \<open>tlb\<close>
  records every TLB write, oldest first; \<open>ipl\<close> is the interrupt priority level.
\<close>

record kernel =
  mem :: "vaddr_t \<Rightarrow> page"
  allocated :: "vaddr_t set"
  kpages_script :: "vaddr_t list"
  kmalloc_script :: "bool list"
  kheap :: int
  junk_l1 :: pagetable
  junk_l2 :: l2_table
  tlb :: "tlb_op list"
  ipl :: nat

text \<open>
  Modelled from the spec: \<^verbatim>\<open>kmalloc\<close> and \<^verbatim>\<open>kfree\<close>, the kernel heap, an
  external collaborator. A call succeeds (\<open>True\<close>, a non-NULL pointer) or fails as
  the script says; an exhausted script is an exhausted heap. \<open>kheap\<close> counts the
  live blocks.
\<close>

definition kmalloc :: "kernel \<Rightarrow> bool \<times> kernel" where
  "kmalloc k =
     (case kmalloc_script k of
        [] \<Rightarrow> (False, k)
      | b # bs \<Rightarrow>
          (if b then (True, k\<lparr>kmalloc_script := bs, kheap := kheap k + 1\<rparr>)
           else (False, k\<lparr>kmalloc_script := bs\<rparr>)))"

definition kfree :: "kernel \<Rightarrow> kernel" where
  "kfree k = k\<lparr>kheap := kheap k - 1\<rparr>"

text \<open>
  Modelled from the spec: \<^verbatim>\<open>alloc_kpages(1)\<close> and \<^verbatim>\<open>free_kpages\<close>, the
  physical page allocator, an external collaborator. The call returns the kernel
  virtual address of a page, or 0 when no page is available (a 0 in the script or
  an exhausted script).
\<close>

definition alloc_kpages :: "kernel \<Rightarrow> vaddr_t \<times> kernel" where
  "alloc_kpages k =
     (case kpages_script k of
        [] \<Rightarrow> (0, k)
      | v # vs \<Rightarrow>
          (if v = 0 then (0, k\<lparr>kpages_script := vs\<rparr>)
           else (v, k\<lparr>kpages_script := vs, allocated := insert v (allocated k)\<rparr>)))"

definition free_kpages :: "vaddr_t \<Rightarrow> kernel \<Rightarrow> kernel" where
  "free_kpages v k = k\<lparr>allocated := allocated k - {v}\<rparr>"

text \<open>
  Modelled from the spec: \<^verbatim>\<open>bzero(p, PAGE_SIZE)\<close> and
  \<^verbatim>\<open>memmove(dst, src, PAGE_SIZE)\<close> of the kernel library, on whole pages (zero-fill,
  and a byte-for-byte copy); \<^verbatim>\<open>memmove\<close> returns its destination.
\<close>

definition bzero :: "vaddr_t \<Rightarrow> kernel \<Rightarrow> kernel" where
  "bzero p k = k\<lparr>mem := (mem k)(p := replicate (unat PAGE_SIZE) 0)\<rparr>"

definition memmove :: "vaddr_t \<Rightarrow> vaddr_t \<Rightarrow> kernel \<Rightarrow> vaddr_t \<times> kernel" where
  "memmove dst src k = (dst, k\<lparr>mem := (mem k)(dst := mem k src)\<rparr>)"

text \<open>
  Modelled from the spec: the interrupt level (\<^verbatim>\<open>splhigh\<close>, \<^verbatim>\<open>splx\<close>), the TLB
  primitives (\<^verbatim>\<open>tlb_write\<close>, \<^verbatim>\<open>tlb_random\<close>, \<^verbatim>\<open>TLBHI_INVALID\<close>,
  \<^verbatim>\<open>TLBLO_INVALID\<close>) and \<^verbatim>\<open>proc_getas\<close>, all external collaborators.
\<close>

definition IPL_HIGH :: nat where
  "IPL_HIGH = 1"

definition splhigh :: "kernel \<Rightarrow> nat \<times> kernel" where
  "splhigh k = (ipl k, k\<lparr>ipl := IPL_HIGH\<rparr>)"

definition splx :: "nat \<Rightarrow> kernel \<Rightarrow> kernel" where
  "splx s k = k\<lparr>ipl := s\<rparr>"

definition tlb_write :: "32 word \<Rightarrow> 32 word \<Rightarrow> nat \<Rightarrow> kernel \<Rightarrow> kernel" where
  "tlb_write hi lo i k = k\<lparr>tlb := tlb k @ [TLB_Write hi lo i]\<rparr>"

definition tlb_random :: "32 word \<Rightarrow> 32 word \<Rightarrow> kernel \<Rightarrow> kernel" where
  "tlb_random hi lo k = k\<lparr>tlb := tlb k @ [TLB_Random hi lo]\<rparr>"

definition TLBHI_INVALID :: "nat \<Rightarrow> 32 word" where
  "TLBHI_INVALID i = push_bit 12 (0x80000 + of_nat i)"

definition TLBLO_INVALID :: "32 word" where
  "TLBLO_INVALID = 0"

definition proc_getas :: "proc option \<Rightarrow> addrspace option" where
  "proc_getas curproc = (case curproc of None \<Rightarrow> None | Some p \<Rightarrow> p_addrspace p)"

section \<open>Address spaces and regions (addrspace.c)\<close>

text \<open>\<^verbatim>\<open>as_activate\<close>: without a current address space nothing happens; otherwise
  every TLB slot is overwritten with an invalid entry, interrupts off.\<close>

definition as_activate :: "proc option \<Rightarrow> kernel \<Rightarrow> kernel" where
  "as_activate curproc k =
     (case proc_getas curproc of
        None \<Rightarrow> k
      | Some as \<Rightarrow>
          (case splhigh k of (spl, k1) \<Rightarrow>
             splx spl (fold (\<lambda>i. tlb_write (TLBHI_INVALID i) TLBLO_INVALID i) [0..<NUM_TLB] k1)))"

definition as_deactivate :: "proc option \<Rightarrow> kernel \<Rightarrow> kernel" where
  "as_deactivate curproc k = as_activate curproc k"

text \<open>
  \<^verbatim>\<open>as_define_region\<close>. \<^verbatim>\<open>memsize\<close> is a 32-bit \<^verbatim>\<open>size_t\<close>, so both additions
  wrap. The three permission arguments are or-ed together unchanged. The new
  region is put in front of the list.
\<close>

definition as_define_region ::
  "addrspace \<Rightarrow> vaddr_t \<Rightarrow> 32 word \<Rightarrow> 32 word \<Rightarrow> 32 word \<Rightarrow> 32 word \<Rightarrow> kernel
   \<Rightarrow> retval \<times> addrspace \<times> kernel" where
  "as_define_region as vaddr memsize readable writeable executable k =
     (let memsize1 = memsize + (vaddr AND NOT PAGE_FRAME);
          vaddr1 = vaddr AND PAGE_FRAME;
          memsize2 = (memsize1 + PAGE_SIZE - 1) AND PAGE_FRAME
      in case kmalloc k of
           (False, k1) \<Rightarrow> (ENOMEM, as, k1)
         | (True, k1) \<Rightarrow>
             (let flags = readable OR writeable OR executable;
                  new_region = \<lparr>as_vbase = vaddr1, size_r = memsize2,
                                flags = flags, og_flags = flags\<rparr>
              in (OK, as\<lparr>regions := new_region # regions as\<rparr>, k1)))"

text \<open>\<^verbatim>\<open>as_prepare_load\<close> and \<^verbatim>\<open>as_complete_load\<close>; the argument is a pointer
  that may be NULL.\<close>

definition as_prepare_load :: "addrspace option \<Rightarrow> retval \<times> addrspace option" where
  "as_prepare_load as =
     (case as of
        None \<Rightarrow> (EFAULT, None)
      | Some a \<Rightarrow>
          (OK, Some (a\<lparr>regions :=
                 map (\<lambda>current. current\<lparr>og_flags := flags current, flags := PF_W OR PF_R\<rparr>)
                   (regions a)\<rparr>)))"

definition as_complete_load ::
  "addrspace option \<Rightarrow> proc option \<Rightarrow> kernel \<Rightarrow> retval \<times> addrspace option \<times> kernel" where
  "as_complete_load as curproc k =
     (case as of
        None \<Rightarrow> (EFAULT, None, k)
      | Some a \<Rightarrow>
          (OK,
           Some (a\<lparr>regions := map (\<lambda>current. current\<lparr>flags := og_flags current\<rparr>) (regions a)\<rparr>),
           as_deactivate curproc k))"

section \<open>The page table (vm.c)\<close>

text \<open>
  \<^verbatim>\<open>create_pt_l2\<close>: the slot must be empty; the new second-level table is cleared
  entry by entry. On a failed \<^verbatim>\<open>kmalloc\<close> the slot has been assigned NULL.
\<close>

definition create_pt_l2 :: "pagetable \<Rightarrow> 32 word \<Rightarrow> kernel \<Rightarrow> retval \<times> pagetable \<times> kernel" where
  "create_pt_l2 pt msb k =
     (if \<not> msb < 0xFFFFF800 then (PANIC, pt, k)
      else if pt (unat msb) \<noteq> None then (EINVAL, pt, k)
      else case kmalloc k of
             (False, k1) \<Rightarrow> (ENOMEM, pt(unat msb := None), k1)
           | (True, k1) \<Rightarrow>
               (OK,
                pt(unat msb := Some (fold (\<lambda>lsb l2. l2(lsb := 0)) [0..<L2_PT_SIZE] (junk_l2 k1))),
                k1))"

text \<open>
  \<^verbatim>\<open>create_pte\<close>: makes the second-level table if needed, refuses a slot that is
  in use, takes a page from the allocator, clears it and stores
  \<^verbatim>\<open>(physical_base & PAGE_FRAME) | dirty | TLBLO_VALID\<close>.
\<close>

definition create_pte ::
  "pagetable \<Rightarrow> 32 word \<Rightarrow> 32 word \<Rightarrow> 32 word \<Rightarrow> kernel \<Rightarrow> retval \<times> pagetable \<times> kernel" where
  "create_pte pt msb lsb dirty k =
     (case (if pt (unat msb) = None then create_pt_l2 pt msb k else (OK, pt, k)) of
        (result, pt1, k1) \<Rightarrow>
          if result \<noteq> OK then (result, pt1, k1)
          else case pt1 (unat msb) of
                 None \<Rightarrow> (PANIC, pt1, k1)
               | Some l2 \<Rightarrow>
                   if l2 (unat lsb) \<noteq> 0 then (EINVAL, pt1, k1)
                   else case alloc_kpages k1 of
                          (virtual_base, k2) \<Rightarrow>
                            if virtual_base = 0 then (ENOMEM, pt1, k2)
                            else let k3 = bzero virtual_base k2;
                                     physical_base = KVADDR_TO_PADDR virtual_base
                                 in (OK,
                                     pt1(unat msb := Some (l2(unat lsb :=
                                       (physical_base AND PAGE_FRAME) OR dirty OR TLBLO_VALID))),
                                     k3))"

text \<open>
  \<^verbatim>\<open>destroy_pt\<close>: every non-zero entry of every second-level table names a page
  that is handed back to the allocator; then the tables themselves are freed.
\<close>

fun destroy_pt_l2 :: "nat list \<Rightarrow> l2_table \<Rightarrow> kernel \<Rightarrow> l2_table \<times> kernel" where
  "destroy_pt_l2 [] l2 k = (l2, k)"
| "destroy_pt_l2 (lsb # rest) l2 k =
     (if l2 lsb \<noteq> 0
      then destroy_pt_l2 rest (l2(lsb := 0))
             (free_kpages (PADDR_TO_KVADDR (l2 lsb AND PAGE_FRAME)) k)
      else destroy_pt_l2 rest l2 k)"

fun destroy_pt_l1 :: "nat list \<Rightarrow> pagetable \<Rightarrow> kernel \<Rightarrow> kernel" where
  "destroy_pt_l1 [] pt k = k"
| "destroy_pt_l1 (msb # rest) pt k =
     (case pt msb of
        None \<Rightarrow> destroy_pt_l1 rest pt k
      | Some l2 \<Rightarrow>
          (case destroy_pt_l2 [0..<L2_PT_SIZE] l2 k of
             (l2', k1) \<Rightarrow> destroy_pt_l1 rest (pt(msb := Some l2')) (kfree k1)))"

definition destroy_pt :: "pagetable option \<Rightarrow> kernel \<Rightarrow> kernel" where
  "destroy_pt pt k =
     (case pt of
        None \<Rightarrow> k
      | Some t \<Rightarrow> kfree (destroy_pt_l1 [0..<L1_PT_SIZE] t k))"

text \<open>
  \<^verbatim>\<open>copy_pt\<close>, inner loop over \<^verbatim>\<open>lsb\<close>. The entry of the original is stored in
  the copy first; a non-zero entry then gets a page of its own, filled from the
  original's page, and is overwritten. When \<^verbatim>\<open>alloc_kpages\<close> fails the loop
  returns at once. \<^verbatim>\<open>memmove\<close> returns its destination, so the branch that
  tests it against NULL is there but cannot be taken.
\<close>

fun copy_pt_l2 ::
  "nat list \<Rightarrow> nat \<Rightarrow> l2_table \<Rightarrow> pagetable \<Rightarrow> l2_table \<Rightarrow> kernel
   \<Rightarrow> retval \<times> l2_table \<times> kernel" where
  "copy_pt_l2 [] msb orig_l2 pt_copy copy_l2 k = (OK, copy_l2, k)"
| "copy_pt_l2 (lsb # rest) msb orig_l2 pt_copy copy_l2 k =
     (let copy_l2a = copy_l2(lsb := orig_l2 lsb) in
      if copy_l2a lsb = 0 then copy_pt_l2 rest msb orig_l2 pt_copy copy_l2a k
      else case alloc_kpages k of
             (newpage, k1) \<Rightarrow>
               if newpage = 0 then (ENOMEM, copy_l2a, k1)
               else case memmove newpage (PADDR_TO_KVADDR (orig_l2 lsb AND PAGE_FRAME))
                           (bzero newpage k1) of
                      (moved, k2) \<Rightarrow>
                        if moved = 0
                        then (ENOMEM, copy_l2a,
                              destroy_pt (Some (pt_copy(msb := Some copy_l2a))) k2)
                        else let dirty = orig_l2 lsb AND TLBLO_DIRTY in
                             copy_pt_l2 rest msb orig_l2 pt_copy
                               (copy_l2a(lsb :=
                                  (KVADDR_TO_PADDR newpage AND PAGE_FRAME) OR dirty OR TLBLO_VALID))
                               k2)"

text \<open>Outer loop over \<^verbatim>\<open>msb\<close>: a second-level table of the original gets a
  \<^verbatim>\<open>kmalloc\<close>-ed, uncleared table in the copy.\<close>

fun copy_pt_l1 ::
  "nat list \<Rightarrow> pagetable \<Rightarrow> pagetable \<Rightarrow> kernel \<Rightarrow> retval \<times> pagetable \<times> kernel" where
  "copy_pt_l1 [] pt_original pt_copy k = (OK, pt_copy, k)"
| "copy_pt_l1 (msb # rest) pt_original pt_copy k =
     (case pt_original msb of
        None \<Rightarrow> copy_pt_l1 rest pt_original pt_copy k
      | Some orig_l2 \<Rightarrow>
          (case kmalloc k of
             (False, k1) \<Rightarrow> (ENOMEM, pt_copy(msb := None), k1)
           | (True, k1) \<Rightarrow>
               (case copy_pt_l2 [0..<L2_PT_SIZE] msb orig_l2 pt_copy (junk_l2 k1) k1 of
                  (r, copy_l2, k2) \<Rightarrow>
                    if r = OK
                    then copy_pt_l1 rest pt_original (pt_copy(msb := Some copy_l2)) k2
                    else (r, pt_copy(msb := Some copy_l2), k2))))"

text \<open>
  \<^verbatim>\<open>copy_pt\<close>. The second component of the result is the caller's table: when
  the caller passes NULL the table allocated here stays local to the function.
\<close>

definition copy_pt ::
  "pagetable option \<Rightarrow> pagetable option \<Rightarrow> kernel \<Rightarrow> retval \<times> pagetable option \<times> kernel" where
  "copy_pt pt_original pt_copy k =
     (case pt_original of
        None \<Rightarrow> (EINVAL, pt_copy, k)
      | Some po \<Rightarrow>
          (case pt_copy of
             Some pc \<Rightarrow>
               (case copy_pt_l1 [0..<L1_PT_SIZE] po pc k of
                  (r, pc', k1) \<Rightarrow> (r, Some pc', k1))
           | None \<Rightarrow>
               (case kmalloc k of
                  (False, k1) \<Rightarrow> (ENOMEM, None, k1)
                | (True, k1) \<Rightarrow>
                    (case copy_pt_l1 [0..<L1_PT_SIZE] po (junk_l1 k1) k1 of
                       (r, pc', k2) \<Rightarrow> (r, None, k2)))))"

definition pte_exists :: "pagetable option \<Rightarrow> 32 word \<Rightarrow> 32 word \<Rightarrow> bool" where
  "pte_exists pt msb lsb =
     (case pt of
        None \<Rightarrow> False
      | Some t \<Rightarrow>
          (case t (unat msb) of
             None \<Rightarrow> False
           | Some l2 \<Rightarrow> l2 (unat lsb) \<noteq> 0))"

section \<open>Creating, copying and destroying address spaces (addrspace.c)\<close>

definition as_create :: "kernel \<Rightarrow> addrspace option \<times> kernel" where
  "as_create k =
     (case kmalloc k of
        (False, k1) \<Rightarrow> (None, k1)
      | (True, k1) \<Rightarrow>
          (case kmalloc k1 of
             (False, k2) \<Rightarrow> (None, kfree k2)
           | (True, k2) \<Rightarrow>
               (Some \<lparr>pagetable =
                        Some (fold (\<lambda>msb pt. pt(msb := None)) [0..<L1_PT_SIZE] (junk_l1 k2)),
                      regions = [], stackbase = USERSTACK\<rparr>,
                k2)))"

definition as_destroy :: "addrspace option \<Rightarrow> kernel \<Rightarrow> kernel" where
  "as_destroy as k =
     (case as of
        None \<Rightarrow> k
      | Some a \<Rightarrow> kfree (destroy_pt (pagetable a) (fold (\<lambda>current. kfree) (regions a) k)))"

text \<open>\<^verbatim>\<open>as_copy\<close>, the loop that copies the regions: each copy is linked to the
  end of the new list. A failed \<^verbatim>\<open>kmalloc\<close> destroys the new address space.\<close>

fun as_copy_regions ::
  "region list \<Rightarrow> addrspace \<Rightarrow> kernel \<Rightarrow> retval \<times> addrspace \<times> kernel" where
  "as_copy_regions [] newas k = (OK, newas, k)"
| "as_copy_regions (oldr # rest) newas k =
     (case kmalloc k of
        (False, k1) \<Rightarrow> (ENOMEM, newas, as_destroy (Some newas) k1)
      | (True, k1) \<Rightarrow>
          (let newr = \<lparr>as_vbase = as_vbase oldr, size_r = size_r oldr,
                       flags = flags oldr, og_flags = og_flags oldr\<rparr>
           in as_copy_regions rest (newas\<lparr>regions := regions newas @ [newr]\<rparr>) k1))"

text \<open>\<^verbatim>\<open>as_copy\<close>. The second component is \<^verbatim>\<open>*ret\<close>, assigned on success only.\<close>

definition as_copy :: "addrspace \<Rightarrow> kernel \<Rightarrow> retval \<times> addrspace option \<times> kernel" where
  "as_copy old k =
     (case as_create k of
        (None, k1) \<Rightarrow> (ENOMEM, None, k1)
      | (Some newas0, k1) \<Rightarrow>
          (case as_copy_regions (regions old) (newas0\<lparr>stackbase := stackbase old\<rparr>) k1 of
             (r, newas, k2) \<Rightarrow>
               if r \<noteq> OK then (r, None, k2)
               else case copy_pt (pagetable old) (pagetable newas) k2 of
                      (res, pt_copy, k3) \<Rightarrow>
                        if res \<noteq> OK
                        then (res, None, as_destroy (Some (newas\<lparr>pagetable := pt_copy\<rparr>)) k3)
                        else (OK, Some (newas\<lparr>pagetable := pt_copy\<rparr>), k3)))"

section \<open>The fault handler (vm.c)\<close>

text \<open>The scan of the region list in \<^verbatim>\<open>vm_fault\<close>: the first region with
  \<^verbatim>\<open>faultaddress < as_vbase + size && faultaddress >= as_vbase\<close>; the sum wraps.\<close>

fun vm_fault_region :: "region list \<Rightarrow> vaddr_t \<Rightarrow> region option" where
  "vm_fault_region [] faultaddress = None"
| "vm_fault_region (cur # rest) faultaddress =
     (if faultaddress < as_vbase cur + size_r cur \<and> faultaddress \<ge> as_vbase cur
      then Some cur
      else vm_fault_region rest faultaddress)"

text \<open>
  \<^verbatim>\<open>vm_fault\<close>. The address space belongs to the current process and is changed
  in place, so the process is part of the result.
\<close>

definition vm_fault_tlb ::
  "proc \<Rightarrow> addrspace \<Rightarrow> pagetable \<Rightarrow> vaddr_t \<Rightarrow> kernel \<Rightarrow> retval \<times> proc option \<times> kernel" where
  "vm_fault_tlb p as pt faultaddress k =
     (let curproc' = Some (p\<lparr>p_addrspace := Some (as\<lparr>pagetable := Some pt\<rparr>)\<rparr>);
          entry_hi = faultaddress AND PAGE_FRAME
      in case pt (unat (l1_index faultaddress)) of
           None \<Rightarrow> (PANIC, curproc', k)
         | Some l2 \<Rightarrow>
             (let entry_lo = l2 (unat (l2_index faultaddress)) in
              case splhigh k of
                (spl, k1) \<Rightarrow> (OK, curproc', splx spl (tlb_random entry_hi entry_lo k1))))"

definition vm_fault :: "int \<Rightarrow> vaddr_t \<Rightarrow> proc option \<Rightarrow> kernel \<Rightarrow> retval \<times> proc option \<times> kernel" where
  "vm_fault faulttype faultaddress0 curproc k =
     (if faulttype = VM_FAULT_READONLY then (EFAULT, curproc, k)
      else if faulttype \<noteq> VM_FAULT_READ \<and> faulttype \<noteq> VM_FAULT_WRITE then (EINVAL, curproc, k)
      else if faultaddress0 = 0 then (EFAULT, curproc, k)
      else case curproc of
             None \<Rightarrow> (EFAULT, curproc, k)
           | Some p \<Rightarrow>
               (case proc_getas curproc of
                  None \<Rightarrow> (EFAULT, curproc, k)
                | Some as \<Rightarrow>
                    (let faultaddress = faultaddress0 AND PAGE_FRAME;
                         msb = l1_index faultaddress;
                         lsb = l2_index faultaddress
                     in case pagetable as of
                          None \<Rightarrow> (EFAULT, curproc, k)
                        | Some pt \<Rightarrow>
                            if regions as = [] then (EFAULT, curproc, k)
                            else if \<not> pte_exists (pagetable as) msb lsb
                            then (case vm_fault_region (regions as) faultaddress of
                                    None \<Rightarrow> (EFAULT, curproc, k)
                                  | Some cur \<Rightarrow>
                                      (let dirty = (if flags cur AND PF_W = PF_W
                                                    then TLBLO_DIRTY else 0)
                                       in if flags cur AND PF_W \<noteq> PF_W
                                             \<and> faulttype = VM_FAULT_WRITE
                                          then (EFAULT, curproc, k)
                                          else case create_pte pt msb lsb dirty k of
                                                 (result, pt', k') \<Rightarrow>
                                                   if result \<noteq> OK
                                                   then (result,
                                                         Some (p\<lparr>p_addrspace :=
                                                           Some (as\<lparr>pagetable := Some pt'\<rparr>)\<rparr>),
                                                         k')
                                                   else vm_fault_tlb p as pt' faultaddress k'))
                            else vm_fault_tlb p as pt faultaddress k)))"

section \<open>Specification predicates and concrete scenarios\<close>

text \<open>An idle kernel with both allocators exhausted, and an address space as
  \<^verbatim>\<open>as_create\<close> leaves it: an empty first-level table and no region.\<close>

definition kernel0 :: kernel where
  "kernel0 = \<lparr>mem = (\<lambda>_. []), allocated = {}, kpages_script = [], kmalloc_script = [],
     kheap = 0, junk_l1 = (\<lambda>_. None), junk_l2 = (\<lambda>_. 0), tlb = [], ipl = 0\<rparr>"

definition addrspace0 :: addrspace where
  "addrspace0 = \<lparr>pagetable = Some (\<lambda>_. None), regions = [], stackbase = USERSTACK\<rparr>"

text \<open>The regions, processes and kernels of the examples.\<close>

definition region_text :: region where
  "region_text = \<lparr>as_vbase = 0x00400000, size_r = 0x1000, flags = 5, og_flags = 5\<rparr>"

definition proc1 :: proc where
  "proc1 = \<lparr>p_addrspace = Some (addrspace0\<lparr>regions := [region_text]\<rparr>)\<rparr>"

definition region_zero :: region where
  "region_zero = \<lparr>as_vbase = 0, size_r = 0x1000, flags = 6, og_flags = 6\<rparr>"

definition proc_zero :: proc where
  "proc_zero = \<lparr>p_addrspace = Some (addrspace0\<lparr>regions := [region_zero]\<rparr>)\<rparr>"

definition kernel_one_page :: kernel where
  "kernel_one_page = kernel0\<lparr>kpages_script := [0x80010000], kmalloc_script := [True]\<rparr>"

text \<open>
  The kernel virtual address of the page an entry names, as \<^verbatim>\<open>destroy_pt\<close> and
  \<^verbatim>\<open>copy_pt\<close> compute it, and the entry at a pair of indices (0 when there is no
  second-level table).
\<close>

definition frame_of :: "paddr_t \<Rightarrow> vaddr_t" where
  "frame_of e = PADDR_TO_KVADDR (e AND PAGE_FRAME)"

definition pte :: "pagetable \<Rightarrow> nat \<Rightarrow> nat \<Rightarrow> paddr_t" where
  "pte pt msb lsb = (case pt msb of None \<Rightarrow> 0 | Some l2 \<Rightarrow> l2 lsb)"

text \<open>
  What the code relies on from \<^verbatim>\<open>alloc_kpages\<close>: the pages it will hand out are
  page-aligned, not in use and pairwise different.
\<close>

definition kpages_fresh :: "kernel \<Rightarrow> bool" where
  "kpages_fresh k \<longleftrightarrow>
     distinct (filter (\<lambda>v. v \<noteq> 0) (kpages_script k))
     \<and> (\<forall>v \<in> set (kpages_script k). v \<noteq> 0 \<longrightarrow> v AND NOT PAGE_FRAME = 0 \<and> v \<notin> allocated k)"

text \<open>
  What \<^verbatim>\<open>create_pte\<close> and \<^verbatim>\<open>copy_pt\<close> establish for every entry they write:
  a non-zero entry has TLBLO_VALID set and names a page that is allocated.
\<close>

definition pt_invariant :: "pagetable \<Rightarrow> kernel \<Rightarrow> bool" where
  "pt_invariant pt k \<longleftrightarrow>
     (\<forall>msb \<in> set [0..<L1_PT_SIZE]. \<forall>lsb \<in> set [0..<L2_PT_SIZE].
        pte pt msb lsb \<noteq> 0 \<longrightarrow>
          pte pt msb lsb AND TLBLO_VALID = TLBLO_VALID
          \<and> frame_of (pte pt msb lsb) \<in> allocated k)"

text \<open>
  Used in the proofs: the kernel \<open>k'\<close> has kept the allocated pages of \<open>k\<close> and their
  contents; and how an entry \<open>e'\<close> of a copy relates to the entry \<open>e\<close> it was
  made from.
\<close>

definition kext :: "kernel \<Rightarrow> kernel \<Rightarrow> bool" where
  "kext k k' \<longleftrightarrow> allocated k \<subseteq> allocated k' \<and> (\<forall>a \<in> allocated k. mem k' a = mem k a)"

definition copied_entry :: "kernel \<Rightarrow> kernel \<Rightarrow> paddr_t \<Rightarrow> paddr_t \<Rightarrow> bool" where
  "copied_entry k k' e e' \<longleftrightarrow>
     (if e = 0 then e' = 0
      else \<exists>np. np \<notin> allocated k \<and> np \<in> allocated k' \<and> np AND NOT PAGE_FRAME = 0
             \<and> e' = (KVADDR_TO_PADDR np AND PAGE_FRAME) OR (e AND TLBLO_DIRTY) OR TLBLO_VALID
             \<and> mem k' np = mem k (frame_of e))"

text \<open>
  An address space with one resident page: virtual page 0x00400000, frame
  0x00010000, writable; and a kernel in which that frame is allocated, with four
  successful \<^verbatim>\<open>kmalloc\<close> calls to come and the given pages to hand out.
\<close>

definition page_of_sevens :: page where
  "page_of_sevens = replicate (unat PAGE_SIZE) 7"

definition l2_one_page :: l2_table where
  "l2_one_page = (\<lambda>_. 0)(0 := 0x00010600)"

definition pt_one_page :: pagetable where
  "pt_one_page = (\<lambda>_. None)(2 := Some l2_one_page)"

definition region_data :: region where
  "region_data = \<lparr>as_vbase = 0x00400000, size_r = 0x1000, flags = 6, og_flags = 6\<rparr>"

definition addrspace_old :: addrspace where
  "addrspace_old = \<lparr>pagetable = Some pt_one_page, regions = [region_data], stackbase = USERSTACK\<rparr>"

definition kernel_script :: "vaddr_t list \<Rightarrow> kernel" where
  "kernel_script ps = kernel0\<lparr>mem := (\<lambda>_. [])(0x80010000 := page_of_sevens),
                             allocated := {0x80010000},
                             kpages_script := ps,
                             kmalloc_script := [True, True, True, True]\<rparr>"

text \<open>
  The kernel that the failed copy of the one-page address space leaves behind,
  when the allocator next hands out the page that copy has freed and four
  \<^verbatim>\<open>kmalloc\<close> calls succeed.
\<close>

definition kernel_after_failed_copy :: kernel where
  "kernel_after_failed_copy =
     (snd (snd (as_copy addrspace_old (kernel_script []))))
       \<lparr>kpages_script := [0x80010000], kmalloc_script := [True, True, True, True]\<rparr>"

section \<open>Properties\<close>

subsection \<open>Page-table indices\<close>

lemma bit_l1_index: "bit (l1_index addr) n \<longleftrightarrow> n < 11 \<and> bit addr (n + 21)"
proof -
  have "bit addr (21 + n) \<Longrightarrow> n < 11"
    using bit_imp_le_length [of addr "21 + n"] by simp
  then show ?thesis
    by (auto simp add: l1_index_def bit_drop_bit_eq add.commute)
qed

lemma bit_l2_index: "bit (l2_index addr) n \<longleftrightarrow> n < 9 \<and> bit addr (n + 12)"
  by (auto simp add: l2_index_def bit_drop_bit_eq bit_push_bit_iff add.commute)

lemma l2_index_alt: "l2_index addr = drop_bit 12 addr AND 0x1FF"
proof -
  have m: "(0x1FF :: 32 word) = mask 9"
    by (simp add: mask_eq_exp_minus_1)
  show ?thesis
    unfolding m
    by (rule bit_word_eqI) (auto simp add: bit_l2_index bit_and_iff bit_mask_iff bit_drop_bit_eq add.commute)
qed

lemma l1_index_less: "unat (l1_index addr) < 2048"
proof -
  have "l1_index addr = take_bit 11 (l1_index addr)"
    by (rule bit_word_eqI) (auto simp add: bit_l1_index bit_take_bit_iff)
  then have "unat (l1_index addr) = take_bit 11 (unat (l1_index addr))"
    by (metis unsigned_take_bit_eq)
  then have "unat (l1_index addr) < 2 ^ 11"
    by (metis take_bit_nat_less_exp)
  then show ?thesis by simp
qed

lemma l2_index_less: "unat (l2_index addr) < 512"
proof -
  have "l2_index addr = take_bit 9 (l2_index addr)"
    by (rule bit_word_eqI) (auto simp add: bit_l2_index bit_take_bit_iff)
  then have "unat (l2_index addr) = take_bit 9 (unat (l2_index addr))"
    by (metis unsigned_take_bit_eq)
  then have "unat (l2_index addr) < 2 ^ 9"
    by (metis take_bit_nat_less_exp)
  then show ?thesis by simp
qed

text \<open>
  C8. For every 32-bit address the L2 index \<^verbatim>\<open>(addr << 11) >> 23\<close> equals
  \<^verbatim>\<open>(addr >> 12) & 0x1FF\<close>, that is bits 20..12 of the address; the L1 index
  \<^verbatim>\<open>addr >> 21\<close> is bits 31..21; and both are in range: the L1 index is below
  L1_PT_SIZE = 2048 and the L2 index below L2_PT_SIZE = 512.
\<close>

theorem page_table_indices:
  "l2_index addr = drop_bit 12 addr AND 0x1FF
   \<and> (\<forall>n. bit (l2_index addr) n = (n < 9 \<and> bit addr (n + 12)))
   \<and> (\<forall>n. bit (l1_index addr) n = (n < 11 \<and> bit addr (n + 21)))
   \<and> unat (l1_index addr) < L1_PT_SIZE
   \<and> unat (l2_index addr) < L2_PT_SIZE"
proof (intro conjI allI)
  show "l2_index addr = drop_bit 12 addr AND 0x1FF"
    by (rule l2_index_alt)
  show "bit (l2_index addr) n = (n < 9 \<and> bit addr (n + 12))" for n
    by (rule bit_l2_index)
  show "bit (l1_index addr) n = (n < 11 \<and> bit addr (n + 21))" for n
    by (rule bit_l1_index)
  show "unat (l1_index addr) < L1_PT_SIZE"
    using l1_index_less [of addr] by (simp add: L1_PT_SIZE_def)
  show "unat (l2_index addr) < L2_PT_SIZE"
    using l2_index_less [of addr] by (simp add: L2_PT_SIZE_def)
qed

subsection \<open>Regions\<close>

lemma PAGE_FRAME_not_mask: "(0xfffff000 :: 32 word) = NOT (mask 12)"
  by (simp add: mask_eq_exp_minus_1)

lemma and_PAGE_FRAME: "(x :: 32 word) AND PAGE_FRAME = push_bit 12 (drop_bit 12 x)"
  unfolding PAGE_FRAME_def PAGE_FRAME_not_mask
  by (rule bit_word_eqI)
    (auto simp add: bit_and_iff bit_push_bit_iff bit_drop_bit_eq bit_not_iff bit_mask_iff)

lemma and_not_PAGE_FRAME: "(x :: 32 word) AND NOT PAGE_FRAME = take_bit 12 x"
  unfolding PAGE_FRAME_def PAGE_FRAME_not_mask
  by (simp add: take_bit_eq_mask)

lemma unat_and_not_PAGE_FRAME: "unat ((x :: 32 word) AND NOT PAGE_FRAME) = unat x mod 4096"
proof -
  have "unat (take_bit 12 x) = take_bit 12 (unat x)"
    by (rule unsigned_take_bit_eq)
  then show ?thesis
    by (simp only: and_not_PAGE_FRAME take_bit_eq_mod) simp
qed

lemma split_PAGE_FRAME: "(x AND PAGE_FRAME) + (x AND NOT PAGE_FRAME) = (x :: 32 word)"
  by (simp add: and_PAGE_FRAME and_not_PAGE_FRAME bits_ident)

lemma unat_and_PAGE_FRAME: "unat ((x :: 32 word) AND PAGE_FRAME) = unat x - unat x mod 4096"
proof -
  have le: "x AND PAGE_FRAME \<le> x"
    by (simp add: word_and_le2)
  have "unat x = unat ((x AND PAGE_FRAME) + (x AND NOT PAGE_FRAME))"
    by (simp add: split_PAGE_FRAME)
  also have "\<dots> = unat (x AND PAGE_FRAME) + unat (x AND NOT PAGE_FRAME)"
    using le split_PAGE_FRAME [of x]
    by (metis no_olen_add_nat unat_plus_simple)
  finally show ?thesis
    by (simp add: unat_and_not_PAGE_FRAME)
qed

lemma unat_and_PAGE_FRAME_mod: "unat ((x :: 32 word) AND PAGE_FRAME) mod 4096 = 0"
  by (simp add: unat_and_PAGE_FRAME mod_eq_0_iff_dvd dvd_minus_mod)

lemma unat_round_up:
  fixes m :: "32 word"
  assumes "unat m + 4095 < 2 ^ 32"
  shows "unat ((m + PAGE_SIZE - 1) AND PAGE_FRAME) = (unat m + 4095) - (unat m + 4095) mod 4096"
proof -
  have e: "m + PAGE_SIZE - 1 = m + 4095"
    by (simp add: PAGE_SIZE_def)
  have u: "unat (m + 4095) = unat m + 4095"
    using assms by (simp add: unat_word_ariths)
  show ?thesis
    unfolding e unat_and_PAGE_FRAME u by (rule refl)
qed

text \<open>
  C2, as the code has it. When \<^verbatim>\<open>as_define_region\<close> succeeds, the new region is
  the head of the list; its base is the address rounded down to a page boundary
  and its size is a multiple of the page size. The size covers the requested
  bytes, and is positive for a positive request, provided rounding the request up
  does not wrap around 32 bits. The code never compares the end of the region
  with the top of user space.
\<close>

theorem as_define_region_stored:
  assumes "as_define_region as vaddr memsize readable writeable executable k = (OK, as', k')"
  shows "\<exists>reg. regions as' = reg # regions as
           \<and> as_vbase reg = vaddr AND PAGE_FRAME
           \<and> unat (as_vbase reg) mod unat PAGE_SIZE = 0
           \<and> unat (as_vbase reg) \<le> unat vaddr
           \<and> unat vaddr < unat (as_vbase reg) + unat PAGE_SIZE
           \<and> unat (size_r reg) mod unat PAGE_SIZE = 0
           \<and> flags reg = readable OR writeable OR executable
           \<and> og_flags reg = readable OR writeable OR executable
           \<and> (unat memsize + unat vaddr mod unat PAGE_SIZE + unat PAGE_SIZE - 1 < 2 ^ 32 \<longrightarrow>
                unat memsize + unat vaddr mod unat PAGE_SIZE \<le> unat (size_r reg)
                \<and> unat (size_r reg) < unat memsize + unat vaddr mod unat PAGE_SIZE + unat PAGE_SIZE
                \<and> unat memsize \<le> unat (size_r reg)
                \<and> (0 < memsize \<longrightarrow> 0 < size_r reg))"
proof -
  define off where "off = vaddr AND NOT PAGE_FRAME"
  define reg where "reg = \<lparr>as_vbase = vaddr AND PAGE_FRAME,
      size_r = (memsize + off + PAGE_SIZE - 1) AND PAGE_FRAME,
      flags = readable OR writeable OR executable,
      og_flags = readable OR writeable OR executable\<rparr>"
  have off: "unat off = unat vaddr mod 4096"
    by (simp add: off_def unat_and_not_PAGE_FRAME)
  have regs: "regions as' = reg # regions as"
    using assms
    by (auto simp add: as_define_region_def Let_def reg_def off_def split: prod.splits bool.splits)
  have size: "unat memsize + unat vaddr mod 4096 \<le> unat (size_r reg)
       \<and> unat (size_r reg) < unat memsize + unat vaddr mod 4096 + 4096"
    if no: "unat memsize + unat vaddr mod 4096 + 4096 - 1 < 2 ^ 32"
  proof -
    have s: "unat (memsize + off) = unat memsize + unat vaddr mod 4096"
      using no off by (simp add: unat_word_ariths)
    have "unat (memsize + off) + 4095 < 2 ^ 32"
      using no s by simp
    from unat_round_up [OF this]
    have "unat (size_r reg) = (unat (memsize + off) + 4095) - (unat (memsize + off) + 4095) mod 4096"
      by (simp add: reg_def)
    moreover have "(unat (memsize + off) + 4095) mod 4096 < 4096"
      by simp
    ultimately show ?thesis
      unfolding s by linarith
  qed
  have pos: "0 < size_r reg"
    if "unat memsize + unat vaddr mod 4096 \<le> unat (size_r reg)" and "0 < memsize"
    using that by (simp add: word_less_nat_alt)
  have vb: "unat (as_vbase reg) = unat vaddr - unat vaddr mod 4096"
    by (simp add: reg_def unat_and_PAGE_FRAME)
  have m: "unat vaddr mod 4096 < 4096" "unat vaddr mod 4096 \<le> unat vaddr"
    by simp_all
  have c1: "as_vbase reg = vaddr AND PAGE_FRAME"
    and c6: "flags reg = readable OR writeable OR executable"
    and c7: "og_flags reg = readable OR writeable OR executable"
    by (simp_all add: reg_def)
  have c2: "unat (as_vbase reg) mod unat PAGE_SIZE = 0"
    by (simp add: reg_def unat_and_PAGE_FRAME_mod PAGE_SIZE_def)
  have c3: "unat (as_vbase reg) \<le> unat vaddr"
    using vb by linarith
  have c4: "unat vaddr < unat (as_vbase reg) + unat PAGE_SIZE"
    using vb m by (simp add: PAGE_SIZE_def)
  have c5: "unat (size_r reg) mod unat PAGE_SIZE = 0"
    by (simp add: reg_def unat_and_PAGE_FRAME_mod PAGE_SIZE_def)
  have c8: "unat memsize + unat vaddr mod unat PAGE_SIZE + unat PAGE_SIZE - 1 < 2 ^ 32 \<longrightarrow>
                unat memsize + unat vaddr mod unat PAGE_SIZE \<le> unat (size_r reg)
                \<and> unat (size_r reg) < unat memsize + unat vaddr mod unat PAGE_SIZE + unat PAGE_SIZE
                \<and> unat memsize \<le> unat (size_r reg)
                \<and> (0 < memsize \<longrightarrow> 0 < size_r reg)"
  proof
    assume "unat memsize + unat vaddr mod unat PAGE_SIZE + unat PAGE_SIZE - 1 < 2 ^ 32"
    then have no: "unat memsize + unat vaddr mod 4096 + 4096 - 1 < 2 ^ 32"
      by (simp add: PAGE_SIZE_def)
    note s = size [OF no]
    from s have "unat memsize \<le> unat (size_r reg)"
      by linarith
    moreover from s pos have "0 < memsize \<longrightarrow> 0 < size_r reg"
      by simp
    ultimately show "unat memsize + unat vaddr mod unat PAGE_SIZE \<le> unat (size_r reg)
                \<and> unat (size_r reg) < unat memsize + unat vaddr mod unat PAGE_SIZE + unat PAGE_SIZE
                \<and> unat memsize \<le> unat (size_r reg)
                \<and> (0 < memsize \<longrightarrow> 0 < size_r reg)"
      using s by (simp add: PAGE_SIZE_def)
  qed
  show ?thesis
    by (rule exI [of _ reg]) (intro conjI regs c1 c2 c3 c4 c5 c6 c7 c8)
qed

text \<open>
  C2, an instance: 0x1000 bytes at 0x00400abc give the region 0x00400000 of
  size 0x2000.
\<close>

theorem as_define_region_stored_witness:
  "as_define_region addrspace0 0x00400abc 0x1000 PF_R PF_W 0 (kernel0\<lparr>kmalloc_script := [True]\<rparr>)
     = (OK,
        addrspace0\<lparr>regions := [\<lparr>as_vbase = 0x00400000, size_r = 0x2000, flags = 6, og_flags = 6\<rparr>]\<rparr>,
        kernel0\<lparr>kmalloc_script := [], kheap := 1\<rparr>)
   \<and> unat (0x1000 :: 32 word) + unat (0x00400abc :: 32 word) mod unat PAGE_SIZE + unat PAGE_SIZE - 1
       < 2 ^ 32
   \<and> (\<exists>reg. regions (addrspace0\<lparr>regions :=
                 [\<lparr>as_vbase = 0x00400000, size_r = 0x2000, flags = 6, og_flags = 6\<rparr>]\<rparr>)
               = reg # regions addrspace0
           \<and> as_vbase reg = 0x00400abc AND PAGE_FRAME
           \<and> unat (size_r reg) mod unat PAGE_SIZE = 0
           \<and> unat (0x1000 :: 32 word) \<le> unat (size_r reg)
           \<and> 0 < size_r reg)"
proof -
  have e: "as_define_region addrspace0 0x00400abc 0x1000 PF_R PF_W 0
             (kernel0\<lparr>kmalloc_script := [True]\<rparr>)
     = (OK,
        addrspace0\<lparr>regions := [\<lparr>as_vbase = 0x00400000, size_r = 0x2000, flags = 6, og_flags = 6\<rparr>]\<rparr>,
        kernel0\<lparr>kmalloc_script := [], kheap := 1\<rparr>)"
    by (simp add: as_define_region_def kmalloc_def kernel0_def addrspace0_def PAGE_FRAME_def
        PAGE_SIZE_def PF_R_def PF_W_def)
  have h: "unat (0x1000 :: 32 word) + unat (0x00400abc :: 32 word) mod unat PAGE_SIZE
             + unat PAGE_SIZE - 1 < 2 ^ 32"
    by (simp add: PAGE_SIZE_def)
  have p: "(0 :: 32 word) < 0x1000"
    by simp
  from as_define_region_stored [OF e]
  obtain reg where r1: "regions (addrspace0\<lparr>regions :=
                 [\<lparr>as_vbase = 0x00400000, size_r = 0x2000, flags = 6, og_flags = 6\<rparr>]\<rparr>)
               = reg # regions addrspace0"
    and r2: "as_vbase reg = 0x00400abc AND PAGE_FRAME"
    and r3: "unat (size_r reg) mod unat PAGE_SIZE = 0"
    and r4: "unat (0x1000 :: 32 word) + unat (0x00400abc :: 32 word) mod unat PAGE_SIZE
               + unat PAGE_SIZE - 1 < 2 ^ 32 \<longrightarrow>
             unat (0x1000 :: 32 word) + unat (0x00400abc :: 32 word) mod unat PAGE_SIZE
               \<le> unat (size_r reg)
             \<and> unat (size_r reg)
               < unat (0x1000 :: 32 word) + unat (0x00400abc :: 32 word) mod unat PAGE_SIZE
                 + unat PAGE_SIZE
             \<and> unat (0x1000 :: 32 word) \<le> unat (size_r reg)
             \<and> ((0 :: 32 word) < 0x1000 \<longrightarrow> 0 < size_r reg)"
    by (elim exE conjE) (rule that; assumption)
  note c = mp [OF r4 h]
  note r5 = c [THEN conjunct2, THEN conjunct2, THEN conjunct1]
  note r6 = mp [OF c [THEN conjunct2, THEN conjunct2, THEN conjunct2] p]
  from r1 r2 r3 r5 r6 have "\<exists>reg. regions (addrspace0\<lparr>regions :=
                 [\<lparr>as_vbase = 0x00400000, size_r = 0x2000, flags = 6, og_flags = 6\<rparr>]\<rparr>)
               = reg # regions addrspace0
           \<and> as_vbase reg = 0x00400abc AND PAGE_FRAME
           \<and> unat (size_r reg) mod unat PAGE_SIZE = 0
           \<and> unat (0x1000 :: 32 word) \<le> unat (size_r reg)
           \<and> 0 < size_r reg"
    by (intro exI [of _ reg] conjI)
  with e h show ?thesis
    by (intro conjI)
qed

text \<open>
  C2 as stated fails. A request of 0xFFFFFFFF bytes at 0xFFFFF000 succeeds and
  stores a region of size 0 inside the kernel segment; a request of 0x2000 bytes
  at 0x7FFFF000 succeeds and stores a region that ends above the top of user
  space.
\<close>

theorem as_define_region_counterexample:
  "fst (as_define_region addrspace0 0xFFFFF000 0xFFFFFFFF PF_R 0 PF_X
          (kernel0\<lparr>kmalloc_script := [True]\<rparr>)) = OK
   \<and> regions (fst (snd (as_define_region addrspace0 0xFFFFF000 0xFFFFFFFF PF_R 0 PF_X
          (kernel0\<lparr>kmalloc_script := [True]\<rparr>))))
       = [\<lparr>as_vbase = 0xFFFFF000, size_r = 0, flags = 5, og_flags = 5\<rparr>]
   \<and> \<not> (0xFFFFFFFF :: 32 word) \<le> 0
   \<and> \<not> (0xFFFFF000 :: 32 word) + 0 \<le> MIPS_KSEG0
   \<and> fst (as_define_region addrspace0 0x7FFFF000 0x2000 PF_R PF_W 0
          (kernel0\<lparr>kmalloc_script := [True]\<rparr>)) = OK
   \<and> regions (fst (snd (as_define_region addrspace0 0x7FFFF000 0x2000 PF_R PF_W 0
          (kernel0\<lparr>kmalloc_script := [True]\<rparr>))))
       = [\<lparr>as_vbase = 0x7FFFF000, size_r = 0x2000, flags = 6, og_flags = 6\<rparr>]
   \<and> \<not> (0x7FFFF000 :: 32 word) + 0x2000 \<le> MIPS_KSEG0"
  by (simp add: as_define_region_def kmalloc_def kernel0_def addrspace0_def PAGE_FRAME_def
      PAGE_SIZE_def PF_R_def PF_W_def PF_X_def MIPS_KSEG0_def)

text \<open>
  C6. For a non-null address space, \<^verbatim>\<open>as_prepare_load\<close> followed by
  \<^verbatim>\<open>as_complete_load\<close> both succeed and leave the flags of every region as
  they were before \<^verbatim>\<open>as_prepare_load\<close>; bases and sizes are untouched.
\<close>

theorem prepare_complete_load_restores_flags:
  "\<exists>a1 a2 k'. as_prepare_load (Some a) = (OK, Some a1)
      \<and> as_complete_load (Some a1) curproc k = (OK, Some a2, k')
      \<and> map flags (regions a2) = map flags (regions a)
      \<and> map as_vbase (regions a2) = map as_vbase (regions a)
      \<and> map size_r (regions a2) = map size_r (regions a)"
  by (simp add: as_prepare_load_def as_complete_load_def comp_def)

text \<open>
  C9. \<^verbatim>\<open>as_prepare_load\<close> is not idempotent: called twice, it stores R|W in
  \<^verbatim>\<open>og_flags\<close> of every region, and \<^verbatim>\<open>as_complete_load\<close> then sets the flags of
  every region to R|W; a region whose flags were not R|W does not get them back.
\<close>

theorem prepare_load_twice_loses_flags:
  "\<exists>a1 a2 a3 k'. as_prepare_load (Some a) = (OK, Some a1)
      \<and> as_prepare_load (Some a1) = (OK, Some a2)
      \<and> as_complete_load (Some a2) curproc k = (OK, Some a3, k')
      \<and> map og_flags (regions a2) = map (\<lambda>r. PF_W OR PF_R) (regions a)
      \<and> map flags (regions a3) = map (\<lambda>r. PF_W OR PF_R) (regions a)
      \<and> (\<forall>i < length (regions a).
            flags (regions a ! i) \<noteq> PF_W OR PF_R \<longrightarrow>
              flags (regions a3 ! i) = PF_W OR PF_R
              \<and> flags (regions a3 ! i) \<noteq> flags (regions a ! i))"
  by (simp add: as_prepare_load_def as_complete_load_def comp_def)

text \<open>
  C9, an instance: a region with flags R|X (5) ends with flags R|W (6).
\<close>

theorem prepare_load_twice_loses_flags_witness:
  "0 < length (regions (addrspace0\<lparr>regions := [\<lparr>as_vbase = 0x00400000, size_r = 0x1000,
                                                 flags = 5, og_flags = 5\<rparr>]\<rparr>))
   \<and> (5 :: 32 word) \<noteq> PF_W OR PF_R
   \<and> (\<exists>a1 a2 a3 k'.
        as_prepare_load (Some (addrspace0\<lparr>regions := [\<lparr>as_vbase = 0x00400000, size_r = 0x1000,
                                                 flags = 5, og_flags = 5\<rparr>]\<rparr>)) = (OK, Some a1)
      \<and> as_prepare_load (Some a1) = (OK, Some a2)
      \<and> as_complete_load (Some a2) None kernel0 = (OK, Some a3, k')
      \<and> flags (regions a3 ! 0) = 6)"
proof -
  let ?a = "addrspace0\<lparr>regions := [\<lparr>as_vbase = 0x00400000, size_r = 0x1000,
                                                 flags = 5, og_flags = 5\<rparr>]\<rparr>"
  have l: "0 < length (regions ?a)"
    by simp
  have f: "flags (regions ?a ! 0) \<noteq> PF_W OR PF_R"
    by (simp add: PF_W_def PF_R_def)
  have v: "PF_W OR PF_R = (6 :: 32 word)"
    by (simp add: PF_W_def PF_R_def)
  from prepare_load_twice_loses_flags [of ?a None kernel0] l f
  obtain a1 a2 a3 k' where "as_prepare_load (Some ?a) = (OK, Some a1)"
    "as_prepare_load (Some a1) = (OK, Some a2)"
    "as_complete_load (Some a2) None kernel0 = (OK, Some a3, k')"
    "flags (regions a3 ! 0) = PF_W OR PF_R"
    by blast
  then have "as_prepare_load (Some ?a) = (OK, Some a1)
      \<and> as_prepare_load (Some a1) = (OK, Some a2)
      \<and> as_complete_load (Some a2) None kernel0 = (OK, Some a3, k')
      \<and> flags (regions a3 ! 0) = 6"
    using v by simp
  then have "\<exists>a1 a2 a3 k'. as_prepare_load (Some ?a) = (OK, Some a1)
      \<and> as_prepare_load (Some a1) = (OK, Some a2)
      \<and> as_complete_load (Some a2) None kernel0 = (OK, Some a3, k')
      \<and> flags (regions a3 ! 0) = 6"
    by blast
  with l f show ?thesis
    by simp
qed

subsection \<open>The fault handler\<close>

lemma create_pt_l2_tlb: "create_pt_l2 pt msb k = (r, pt', k') \<Longrightarrow> tlb k' = tlb k"
  by (auto simp add: create_pt_l2_def kmalloc_def split: if_splits list.splits prod.splits bool.splits)

lemma alloc_kpages_tlb: "alloc_kpages k = (v, k') \<Longrightarrow> tlb k' = tlb k"
  by (auto simp add: alloc_kpages_def split: list.splits if_splits)

lemma create_pte_tlb: "create_pte pt msb lsb dirty k = (r, pt', k') \<Longrightarrow> tlb k' = tlb k"
  by (auto simp add: create_pte_def bzero_def Let_def
      split: if_splits prod.splits option.splits dest!: create_pt_l2_tlb alloc_kpages_tlb)

text \<open>
  C4, as the code has it. A READONLY fault returns EFAULT and changes nothing.
  EFAULT is also what a READ or WRITE fault returns when the page has no entry and
  no region contains the address: the code has one error code for both.
\<close>

theorem vm_fault_readonly:
  "vm_fault VM_FAULT_READONLY faultaddress curproc k = (EFAULT, curproc, k)
   \<and> ((faulttype = VM_FAULT_READ \<or> faulttype = VM_FAULT_WRITE)
        \<and> (\<forall>as. proc_getas curproc = Some as \<longrightarrow>
              \<not> pte_exists (pagetable as) (l1_index (faultaddress AND PAGE_FRAME))
                    (l2_index (faultaddress AND PAGE_FRAME))
              \<and> vm_fault_region (regions as) (faultaddress AND PAGE_FRAME) = None)
        \<longrightarrow> vm_fault faulttype faultaddress curproc k = (EFAULT, curproc, k))"
  by (auto simp add: vm_fault_def Let_def VM_FAULT_READONLY_def VM_FAULT_READ_def
      VM_FAULT_WRITE_def split: option.splits)

text \<open>
  C5. A WRITE fault on a page without a page-table entry, where the first region
  containing the page-aligned address has the W bit clear, returns EFAULT and
  leaves the process and the kernel as they were: no page is allocated, no
  page-table entry is made and the TLB is not written.
\<close>

theorem vm_fault_write_denied:
  assumes "proc_getas curproc = Some as"
    and "\<not> pte_exists (pagetable as) (l1_index (faultaddress AND PAGE_FRAME))
           (l2_index (faultaddress AND PAGE_FRAME))"
    and "vm_fault_region (regions as) (faultaddress AND PAGE_FRAME) = Some r"
    and "flags r AND PF_W = 0"
  shows "vm_fault VM_FAULT_WRITE faultaddress curproc k = (EFAULT, curproc, k)"
proof -
  have "flags r AND PF_W \<noteq> PF_W"
    using assms(4) by (simp add: PF_W_def)
  with assms(1-3) show ?thesis
    by (auto simp add: vm_fault_def Let_def VM_FAULT_READONLY_def VM_FAULT_READ_def
      VM_FAULT_WRITE_def split: option.splits)
qed

text \<open>
  C7. Whenever \<^verbatim>\<open>vm_fault\<close> returns anything but 0 the TLB has not been written;
  and whatever it returns, the region list of the current address space is the
  one it was called with.
\<close>

theorem vm_fault_failure_effects:
  assumes "vm_fault faulttype faultaddress curproc k = (r, curproc', k')"
  shows "(r \<noteq> OK \<longrightarrow> tlb k' = tlb k)
    \<and> map_option regions (proc_getas curproc') = map_option regions (proc_getas curproc)"
  using assms
  by (auto simp add: vm_fault_def vm_fault_tlb_def Let_def proc_getas_def splhigh_def
      split: option.splits if_splits prod.splits dest!: create_pte_tlb)

lemma below_page_and_PAGE_FRAME:
  assumes "(faultaddress :: 32 word) < PAGE_SIZE"
  shows "faultaddress AND PAGE_FRAME = 0"
proof -
  have "unat faultaddress < 4096"
    using assms by (simp add: PAGE_SIZE_def word_less_nat_alt)
  then have "unat (faultaddress AND PAGE_FRAME) = 0"
    by (simp add: unat_and_PAGE_FRAME)
  then show ?thesis
    by (simp add: unat_eq_0)
qed

lemma index_zero [simp]: "l1_index 0 = 0" "l2_index 0 = 0"
  by (simp_all add: l1_index_def l2_index_def)

lemma entry_nonzero [simp]: "(x :: 32 word) OR dirty OR TLBLO_VALID \<noteq> 0"
  by (simp add: or_eq_0_iff TLBLO_VALID_def)

lemma alloc_kpages_after_kmalloc:
  "kmalloc k = (b, k1) \<Longrightarrow> fst (alloc_kpages k1) = fst (alloc_kpages k)"
  by (auto simp add: kmalloc_def alloc_kpages_def split: list.splits if_splits)

lemma fold_clear:
  "fold (\<lambda>i f. f(i := z)) [0..<n] g = (\<lambda>i. if i < n then z else g i)"
  by (induction n) (auto simp add: fun_eq_iff)

lemma create_pte_succeeds:
  assumes "\<not> pte_exists (Some pt) msb lsb"
    and "msb < 0xFFFFF800" and "unat lsb < L2_PT_SIZE"
    and "pt (unat msb) = None \<longrightarrow> fst (kmalloc k)"
    and "fst (alloc_kpages k) \<noteq> 0"
  shows "\<exists>pt' k' l2. create_pte pt msb lsb dirty k = (OK, pt', k')
            \<and> pt' (unat msb) = Some l2
            \<and> l2 (unat lsb) = (KVADDR_TO_PADDR (fst (alloc_kpages k)) AND PAGE_FRAME)
                  OR dirty OR TLBLO_VALID
            \<and> tlb k' = tlb k \<and> ipl k' = ipl k"
proof (cases "pt (unat msb)")
  case None
  with assms(4) have "fst (kmalloc k)"
    by simp
  then obtain k1 where km: "kmalloc k = (True, k1)"
    by (cases "kmalloc k") simp
  from km have t: "tlb k1 = tlb k" "ipl k1 = ipl k"
    by (auto simp add: kmalloc_def split: list.splits if_splits)
  obtain v k2 where al: "alloc_kpages k1 = (v, k2)"
    by (cases "alloc_kpages k1") auto
  with alloc_kpages_after_kmalloc [OF km] assms(5)
  have v: "fst (alloc_kpages k) = v" "v \<noteq> 0"
    by auto
  from al have t2: "tlb k2 = tlb k1" "ipl k2 = ipl k1"
    by (auto simp add: alloc_kpages_def split: list.splits if_splits)
  show ?thesis
    using None assms(2,3) km al v t t2
    by (simp add: create_pte_def create_pt_l2_def Let_def bzero_def fold_clear)
next
  case (Some l2)
  with assms(1) have e: "l2 (unat lsb) = 0"
    by (simp add: pte_exists_def)
  obtain v k2 where al: "alloc_kpages k = (v, k2)"
    by (cases "alloc_kpages k") auto
  with assms(5) have v: "v \<noteq> 0"
    by auto
  from al have t2: "tlb k2 = tlb k" "ipl k2 = ipl k"
    by (auto simp add: alloc_kpages_def split: list.splits if_splits)
  show ?thesis
    using Some e al v t2
    by (simp add: create_pte_def Let_def bzero_def)
qed

text \<open>
  C10. Only the fault address 0 itself is rejected as null. A READ or WRITE fault
  at an address from 1 to PAGE_SIZE - 1 is aligned to page 0; when a region
  contains address 0 (and allows the access), and the entry exists or the
  allocators deliver, the fault succeeds: page 0 has a page-table entry and that
  entry is loaded into the TLB with EntryHi 0.
\<close>

theorem vm_fault_page_zero:
  assumes "faultaddress \<noteq> 0" and "faultaddress < PAGE_SIZE"
    and "faulttype = VM_FAULT_READ \<or> faulttype = VM_FAULT_WRITE"
    and "curproc = Some p" and "p_addrspace p = Some as" and "pagetable as = Some pt"
    and "vm_fault_region (regions as) 0 = Some r"
    and "faulttype = VM_FAULT_WRITE \<longrightarrow> flags r AND PF_W = PF_W"
    and "pte_exists (Some pt) 0 0
         \<or> (pt 0 = None \<longrightarrow> fst (kmalloc k)) \<and> fst (alloc_kpages k) \<noteq> 0"
  shows "\<exists>pt' k' l2. vm_fault faulttype faultaddress curproc k
              = (OK, Some (p\<lparr>p_addrspace := Some (as\<lparr>pagetable := Some pt'\<rparr>)\<rparr>), k')
           \<and> pte_exists (Some pt') 0 0
           \<and> pt' 0 = Some l2
           \<and> tlb k' = tlb k @ [TLB_Random 0 (l2 0)]"
proof -
  have fa: "faultaddress AND PAGE_FRAME = 0"
    by (rule below_page_and_PAGE_FRAME [OF assms(2)])
  have ft: "faulttype \<noteq> VM_FAULT_READONLY"
    using assms(3) by (auto simp add: VM_FAULT_READ_def VM_FAULT_WRITE_def VM_FAULT_READONLY_def)
  have rs: "regions as \<noteq> []"
    using assms(7) by auto
  show ?thesis
  proof (cases "pte_exists (Some pt) 0 0")
    case True
    then obtain l2 where l2: "pt 0 = Some l2" "l2 0 \<noteq> 0"
      by (auto simp add: pte_exists_def split: option.splits)
    have "vm_fault faulttype faultaddress curproc k
              = (OK, Some (p\<lparr>p_addrspace := Some (as\<lparr>pagetable := Some pt\<rparr>)\<rparr>),
                 k\<lparr>tlb := tlb k @ [TLB_Random 0 (l2 0)]\<rparr>)"
      using assms(1,3-7) fa ft rs True l2
      by (auto simp add: vm_fault_def vm_fault_tlb_def Let_def proc_getas_def splhigh_def splx_def
          tlb_random_def)
    with True l2(1) show ?thesis
      by (intro exI [of _ pt] exI [of _ "k\<lparr>tlb := tlb k @ [TLB_Random 0 (l2 0)]\<rparr>"]
          exI [of _ l2]) simp
  next
    case False
    with assms(9) have al: "pt 0 = None \<longrightarrow> fst (kmalloc k)" "fst (alloc_kpages k) \<noteq> 0"
      by auto
    define dirty where "dirty = (if flags r AND PF_W = PF_W then TLBLO_DIRTY else 0)"
    from create_pte_succeeds [of pt 0 0 k dirty] False al
    obtain pt' k' l2 where cp: "create_pte pt 0 0 dirty k = (OK, pt', k')"
      "pt' 0 = Some l2"
      "l2 0 = (KVADDR_TO_PADDR (fst (alloc_kpages k)) AND PAGE_FRAME) OR dirty OR TLBLO_VALID"
      "tlb k' = tlb k" "ipl k' = ipl k"
      by (auto simp add: L2_PT_SIZE_def)
    have "l2 0 \<noteq> 0"
      unfolding cp(3) by (rule entry_nonzero)
    then have pe: "pte_exists (Some pt') 0 0"
      using cp(2) by (simp add: pte_exists_def)
    have "vm_fault faulttype faultaddress curproc k
              = (OK, Some (p\<lparr>p_addrspace := Some (as\<lparr>pagetable := Some pt'\<rparr>)\<rparr>),
                 k'\<lparr>tlb := tlb k @ [TLB_Random 0 (l2 0)]\<rparr>)"
      using assms(1,3-8) fa ft rs False cp
      by (auto simp add: vm_fault_def vm_fault_tlb_def Let_def proc_getas_def splhigh_def splx_def
          tlb_random_def dirty_def)
    with pe cp(2) show ?thesis
      by (intro exI [of _ pt'] exI [of _ "k'\<lparr>tlb := tlb k @ [TLB_Random 0 (l2 0)]\<rparr>"]
          exI [of _ l2]) simp
  qed
qed

text \<open>
  C4, an instance: a READONLY fault and a READ fault outside the only region.
\<close>

theorem vm_fault_readonly_witness:
  "vm_fault VM_FAULT_READONLY 0x00500000 (Some proc1) kernel0 = (EFAULT, Some proc1, kernel0)
   \<and> vm_fault_region (regions (addrspace0\<lparr>regions := [region_text]\<rparr>))
         (0x00500000 AND PAGE_FRAME) = None
   \<and> vm_fault VM_FAULT_READ 0x00500000 (Some proc1) kernel0 = (EFAULT, Some proc1, kernel0)"
proof -
  have h: "(VM_FAULT_READ = VM_FAULT_READ \<or> VM_FAULT_READ = VM_FAULT_WRITE)
        \<and> (\<forall>as. proc_getas (Some proc1) = Some as \<longrightarrow>
              \<not> pte_exists (pagetable as) (l1_index (0x00500000 AND PAGE_FRAME))
                    (l2_index (0x00500000 AND PAGE_FRAME))
              \<and> vm_fault_region (regions as) (0x00500000 AND PAGE_FRAME) = None)"
    by (simp add: proc_getas_def proc1_def addrspace0_def region_text_def pte_exists_def
        PAGE_FRAME_def l1_index_def l2_index_def)
  have r: "vm_fault_region (regions (addrspace0\<lparr>regions := [region_text]\<rparr>))
         (0x00500000 AND PAGE_FRAME) = None"
    by (simp add: region_text_def PAGE_FRAME_def)
  note t = vm_fault_readonly [of "0x00500000" "Some proc1" kernel0 VM_FAULT_READ]
  note t1 = t [THEN conjunct1]
  note t2 = mp [OF t [THEN conjunct2] h]
  from t1 r t2 show ?thesis
    by (intro conjI)
qed

text \<open>
  C4 as stated fails: the READONLY fault returns the very value that a READ fault
  outside every region returns.
\<close>

theorem vm_fault_readonly_counterexample:
  "fst (vm_fault VM_FAULT_READONLY 0x00400010 (Some proc1) kernel0)
     = fst (vm_fault VM_FAULT_READ 0x00500000 (Some proc1) kernel0)"
  by (simp add: vm_fault_def Let_def VM_FAULT_READONLY_def VM_FAULT_READ_def VM_FAULT_WRITE_def
      proc_getas_def proc1_def addrspace0_def region_text_def pte_exists_def
      PAGE_FRAME_def l1_index_def l2_index_def)

text \<open>
  C5, an instance: the region 0x00400000 of one page with flags R|X, WRITE fault
  at 0x00400010.
\<close>

theorem vm_fault_write_denied_witness:
  "vm_fault VM_FAULT_WRITE 0x00400010 (Some proc1) kernel0 = (EFAULT, Some proc1, kernel0)"
proof -
  have "proc_getas (Some proc1) = Some (addrspace0\<lparr>regions := [region_text]\<rparr>)"
    by (simp add: proc_getas_def proc1_def)
  moreover have "\<not> pte_exists (pagetable (addrspace0\<lparr>regions := [region_text]\<rparr>))
      (l1_index (0x00400010 AND PAGE_FRAME)) (l2_index (0x00400010 AND PAGE_FRAME))"
    by (simp add: addrspace0_def pte_exists_def)
  moreover have "vm_fault_region (regions (addrspace0\<lparr>regions := [region_text]\<rparr>))
      (0x00400010 AND PAGE_FRAME) = Some region_text"
    by (simp add: region_text_def PAGE_FRAME_def)
  moreover have "flags region_text AND PF_W = 0"
    by (simp add: region_text_def PF_W_def)
  ultimately show ?thesis
    by (rule vm_fault_write_denied)
qed

text \<open>
  C7, an instance: a READ fault in the region when \<^verbatim>\<open>kmalloc\<close> delivers the
  second-level table and \<^verbatim>\<open>alloc_kpages\<close> has no page.
\<close>

theorem vm_fault_failure_effects_witness:
  "fst (vm_fault VM_FAULT_READ 0x00400010 (Some proc1) (kernel0\<lparr>kmalloc_script := [True]\<rparr>))
     = ENOMEM
   \<and> tlb (snd (snd (vm_fault VM_FAULT_READ 0x00400010 (Some proc1)
                       (kernel0\<lparr>kmalloc_script := [True]\<rparr>))))
     = tlb (kernel0\<lparr>kmalloc_script := [True]\<rparr>)
   \<and> map_option regions (proc_getas (fst (snd (vm_fault VM_FAULT_READ 0x00400010 (Some proc1)
                       (kernel0\<lparr>kmalloc_script := [True]\<rparr>)))))
     = map_option regions (proc_getas (Some proc1))"
proof -
  let ?res = "vm_fault VM_FAULT_READ 0x00400010 (Some proc1) (kernel0\<lparr>kmalloc_script := [True]\<rparr>)"
  have e: "?res = (fst ?res, fst (snd ?res), snd (snd ?res))"
    by simp
  have r: "fst ?res = ENOMEM"
    by (simp add: vm_fault_def Let_def VM_FAULT_READONLY_def VM_FAULT_READ_def VM_FAULT_WRITE_def
      proc_getas_def proc1_def addrspace0_def region_text_def pte_exists_def
      PAGE_FRAME_def l1_index_def l2_index_def create_pte_def create_pt_l2_def kmalloc_def
      alloc_kpages_def kernel0_def PF_W_def fold_clear L2_PT_SIZE_def)
  then have n: "fst ?res \<noteq> OK"
    by simp
  note t = vm_fault_failure_effects [OF e]
  from r mp [OF t [THEN conjunct1] n] t [THEN conjunct2] show ?thesis
    by (intro conjI)
qed

text \<open>
  C10, an instance: a region of one page at address 0, READ fault at 0x10.
\<close>

theorem vm_fault_page_zero_witness:
  "(0x10 :: 32 word) \<noteq> 0 \<and> (0x10 :: 32 word) < PAGE_SIZE
   \<and> vm_fault_region (regions (addrspace0\<lparr>regions := [region_zero]\<rparr>)) 0 = Some region_zero
   \<and> fst (kmalloc kernel_one_page) \<and> fst (alloc_kpages kernel_one_page) \<noteq> 0
   \<and> (\<exists>pt' k' l2. vm_fault VM_FAULT_READ 0x10 (Some proc_zero) kernel_one_page
              = (OK, Some (proc_zero\<lparr>p_addrspace :=
                   Some (addrspace0\<lparr>regions := [region_zero], pagetable := Some pt'\<rparr>)\<rparr>), k')
           \<and> pte_exists (Some pt') 0 0
           \<and> pt' 0 = Some l2
           \<and> tlb k' = tlb kernel_one_page @ [TLB_Random 0 (l2 0)])"
proof -
  have h1: "(0x10 :: 32 word) \<noteq> 0" and h2: "(0x10 :: 32 word) < PAGE_SIZE"
    by (simp_all add: PAGE_SIZE_def)
  have h3: "VM_FAULT_READ = VM_FAULT_READ \<or> VM_FAULT_READ = VM_FAULT_WRITE"
    by simp
  have h5: "p_addrspace proc_zero = Some (addrspace0\<lparr>regions := [region_zero]\<rparr>)"
    by (simp add: proc_zero_def)
  have h6: "pagetable (addrspace0\<lparr>regions := [region_zero]\<rparr>) = Some (\<lambda>_. None)"
    by (simp add: addrspace0_def)
  have h7: "vm_fault_region (regions (addrspace0\<lparr>regions := [region_zero]\<rparr>)) 0
              = Some region_zero"
    by (simp add: region_zero_def)
  have h8: "VM_FAULT_READ = VM_FAULT_WRITE \<longrightarrow> flags region_zero AND PF_W = PF_W"
    by (simp add: VM_FAULT_READ_def VM_FAULT_WRITE_def)
  have a1: "fst (kmalloc kernel_one_page)" and a2: "fst (alloc_kpages kernel_one_page) \<noteq> 0"
    by (simp_all add: kmalloc_def alloc_kpages_def kernel_one_page_def kernel0_def)
  then have h9: "pte_exists (Some (\<lambda>_. None)) 0 0
         \<or> ((\<lambda>_. None) (0 :: nat) = (None :: l2_table option) \<longrightarrow> fst (kmalloc kernel_one_page))
           \<and> fst (alloc_kpages kernel_one_page) \<noteq> 0"
    by simp
  from vm_fault_page_zero [OF h1 h2 h3 refl h5 h6 h7 h8 h9] h1 h2 h7 a1 a2
  show ?thesis
    by simp
qed

subsection \<open>Copying a page table\<close>

lemma bit_PAGE_FRAME: "bit PAGE_FRAME n \<longleftrightarrow> 12 \<le> n \<and> n < 32"
  unfolding PAGE_FRAME_def PAGE_FRAME_not_mask
  by (auto simp add: bit_not_iff bit_mask_iff)

lemma bit_TLBLO_DIRTY: "bit TLBLO_DIRTY n \<longleftrightarrow> n = 10"
proof -
  have e: "TLBLO_DIRTY = 2 ^ 10"
    by (simp add: TLBLO_DIRTY_def)
  show ?thesis
    by (simp only: e bit_exp_iff possible_bit_word) auto
qed

lemma bit_TLBLO_VALID: "bit TLBLO_VALID n \<longleftrightarrow> n = 9"
proof -
  have e: "TLBLO_VALID = 2 ^ 9"
    by (simp add: TLBLO_VALID_def)
  show ?thesis
    by (simp only: e bit_exp_iff possible_bit_word) auto
qed

lemma entry_frame:
  "((x AND PAGE_FRAME) OR (e AND TLBLO_DIRTY) OR TLBLO_VALID) AND PAGE_FRAME = x AND PAGE_FRAME"
  by (rule bit_word_eqI)
    (auto simp add: bit_and_iff bit_or_iff bit_PAGE_FRAME bit_TLBLO_DIRTY bit_TLBLO_VALID)

lemma entry_dirty:
  "((x AND PAGE_FRAME) OR (e AND TLBLO_DIRTY) OR TLBLO_VALID) AND TLBLO_DIRTY = e AND TLBLO_DIRTY"
  by (rule bit_word_eqI)
    (auto simp add: bit_and_iff bit_or_iff bit_PAGE_FRAME bit_TLBLO_DIRTY bit_TLBLO_VALID)

lemma entry_valid:
  "((x AND PAGE_FRAME) OR d OR TLBLO_VALID) AND TLBLO_VALID = TLBLO_VALID"
  by (rule bit_word_eqI)
    (auto simp add: bit_and_iff bit_or_iff bit_PAGE_FRAME bit_TLBLO_DIRTY bit_TLBLO_VALID)

lemma aligned_KVADDR_TO_PADDR:
  assumes "np AND NOT PAGE_FRAME = 0"
  shows "KVADDR_TO_PADDR np AND PAGE_FRAME = KVADDR_TO_PADDR np"
proof -
  have a: "take_bit 12 np = 0"
    using assms by (simp add: and_not_PAGE_FRAME)
  have b: "take_bit 12 MIPS_KSEG0 = 0"
    by (simp add: MIPS_KSEG0_def)
  from a b have "2 ^ 12 dvd np" and "2 ^ 12 dvd MIPS_KSEG0"
    by (simp_all only: take_bit_eq_0_iff)
  then have "2 ^ 12 dvd np - MIPS_KSEG0"
    by (rule dvd_diff)
  then have "take_bit 12 (np - MIPS_KSEG0) = 0"
    by (simp only: take_bit_eq_0_iff)
  then have "(np - MIPS_KSEG0) AND NOT PAGE_FRAME = 0"
    by (simp add: and_not_PAGE_FRAME)
  with split_PAGE_FRAME [of "np - MIPS_KSEG0"] show ?thesis
    by (simp add: KVADDR_TO_PADDR_def)
qed

lemma PADDR_KVADDR [simp]: "PADDR_TO_KVADDR (KVADDR_TO_PADDR v) = v"
  by (simp add: PADDR_TO_KVADDR_def KVADDR_TO_PADDR_def)

lemma kext_refl: "kext k k"
  by (simp add: kext_def)

lemma kext_trans: "kext k k1 \<Longrightarrow> kext k1 k2 \<Longrightarrow> kext k k2"
  by (auto simp add: kext_def)

lemma copied_entry_mono:
  assumes "copied_entry k1 k2 e e'" and "kext k k1" and "kext k2 k'"
    and "e \<noteq> 0 \<longrightarrow> frame_of e \<in> allocated k"
  shows "copied_entry k k' e e'"
proof (cases "e = 0")
  case True
  with assms(1) show ?thesis
    by (simp add: copied_entry_def)
next
  case False
  with assms(1) obtain np where np: "np \<notin> allocated k1" "np \<in> allocated k2"
    "np AND NOT PAGE_FRAME = 0"
    "e' = (KVADDR_TO_PADDR np AND PAGE_FRAME) OR (e AND TLBLO_DIRTY) OR TLBLO_VALID"
    "mem k2 np = mem k1 (frame_of e)"
    by (auto simp add: copied_entry_def)
  from False assms(4) have fe: "frame_of e \<in> allocated k"
    by simp
  have "np \<notin> allocated k"
    using np(1) assms(2) by (auto simp add: kext_def)
  moreover have "np \<in> allocated k'"
    using np(2) assms(3) by (auto simp add: kext_def)
  moreover have "mem k' np = mem k (frame_of e)"
    using np(2,5) assms(2,3) fe by (auto simp add: kext_def)
  ultimately show ?thesis
    using False np(3,4) by (auto simp add: copied_entry_def)
qed

lemma alloc_kpages_fresh:
  assumes "alloc_kpages k = (np, k1)" and "np \<noteq> 0" and "kpages_fresh k"
  shows "np \<notin> allocated k" and "np AND NOT PAGE_FRAME = 0"
    and "allocated k1 = insert np (allocated k)" and "mem k1 = mem k"
    and "kpages_fresh k1"
proof -
  from assms(1,2) obtain vs where s: "kpages_script k = np # vs"
    and k1: "k1 = k\<lparr>kpages_script := vs, allocated := insert np (allocated k)\<rparr>"
    by (auto simp add: alloc_kpages_def split: list.splits if_splits)
  from s assms(2,3) show "np \<notin> allocated k" and "np AND NOT PAGE_FRAME = 0"
    by (auto simp add: kpages_fresh_def)
  from k1 show "allocated k1 = insert np (allocated k)" and "mem k1 = mem k"
    by simp_all
  from s assms(2,3) show "kpages_fresh k1"
    unfolding k1 by (auto simp add: kpages_fresh_def)
qed

lemma kmalloc_frame:
  assumes "kmalloc k = (b, k1)"
  shows "allocated k1 = allocated k" and "mem k1 = mem k"
    and "kpages_script k1 = kpages_script k" and "junk_l2 k1 = junk_l2 k"
    and "junk_l1 k1 = junk_l1 k" and "tlb k1 = tlb k"
  using assms by (auto simp add: kmalloc_def split: list.splits if_splits)

lemma kmalloc_fresh: "kmalloc k = (b, k1) \<Longrightarrow> kpages_fresh k1 = kpages_fresh k"
  by (simp add: kpages_fresh_def kmalloc_frame)

lemma kmalloc_kext: "kmalloc k = (b, k1) \<Longrightarrow> kext k k1"
  by (simp add: kext_def kmalloc_frame)

lemma copy_pt_l2_ok:
  assumes "copy_pt_l2 ls msb ol2 pc cl2 k = (OK, cl2', k')"
    and "distinct ls" and "kpages_fresh k"
    and "\<forall>i \<in> set ls. ol2 i \<noteq> 0 \<longrightarrow> frame_of (ol2 i) \<in> allocated k"
  shows "kpages_fresh k' \<and> kext k k'
         \<and> (\<forall>i. i \<notin> set ls \<longrightarrow> cl2' i = cl2 i)
         \<and> (\<forall>i \<in> set ls. copied_entry k k' (ol2 i) (cl2' i))"
  using assms
proof (induction ls arbitrary: cl2 k)
  case Nil
  then show ?case
    by (simp add: kext_refl)
next
  case (Cons lsb rest)
  from Cons.prems(2) have d: "lsb \<notin> set rest" "distinct rest"
    by simp_all
  show ?case
  proof (cases "ol2 lsb = 0")
    case True
    with Cons.prems(1)
    have run: "copy_pt_l2 rest msb ol2 pc (cl2(lsb := 0)) k = (OK, cl2', k')"
      by simp
    from Cons.prems(4) have own: "\<forall>i \<in> set rest. ol2 i \<noteq> 0 \<longrightarrow> frame_of (ol2 i) \<in> allocated k"
      by simp
    note ih = Cons.IH [OF run d(2) Cons.prems(3) own]
    from ih d(1) have "cl2' lsb = 0"
      by simp
    with True have "copied_entry k k' (ol2 lsb) (cl2' lsb)"
      by (simp add: copied_entry_def)
    with ih show ?thesis
      by auto
  next
    case False
    obtain np k1 where al: "alloc_kpages k = (np, k1)"
      by (cases "alloc_kpages k") auto
    with False Cons.prems(1) have np0: "np \<noteq> 0"
      by (auto split: if_splits)
    note fr = alloc_kpages_fresh [OF al np0 Cons.prems(3)]
    define e' where "e' = (KVADDR_TO_PADDR np AND PAGE_FRAME) OR (ol2 lsb AND TLBLO_DIRTY) OR TLBLO_VALID"
    define k2 where "k2 = snd (memmove np (PADDR_TO_KVADDR (ol2 lsb AND PAGE_FRAME)) (bzero np k1))"
    from False Cons.prems(4) have src: "frame_of (ol2 lsb) \<in> allocated k"
      by simp
    with fr(1) have ne: "frame_of (ol2 lsb) \<noteq> np"
      by auto
    have k2a: "allocated k2 = insert np (allocated k)"
      and k2s: "kpages_script k2 = kpages_script k1"
      by (simp_all add: k2_def memmove_def bzero_def fr(3))
    have k2m: "mem k2 = (mem k)(np := mem k (frame_of (ol2 lsb)))"
      using ne by (simp add: k2_def memmove_def bzero_def fr(4) frame_of_def fun_eq_iff)
    have f2: "kpages_fresh k2"
      using fr(5) by (simp add: kpages_fresh_def k2a k2s fr(3))
    have x2: "kext k k2"
      using fr(1) by (auto simp add: kext_def k2a k2m)
    from False al np0 Cons.prems(1)
    have run: "copy_pt_l2 rest msb ol2 pc (cl2(lsb := e')) k2 = (OK, cl2', k')"
      by (simp add: memmove_def k2_def e'_def Let_def)
    have own: "\<forall>i \<in> set rest. ol2 i \<noteq> 0 \<longrightarrow> frame_of (ol2 i) \<in> allocated k2"
      using Cons.prems(4) by (simp add: k2a)
    note ih = Cons.IH [OF run d(2) f2 own]
    from ih have x: "kext k2 k'" and f: "kpages_fresh k'"
      by simp_all
    from ih d(1) have here: "cl2' lsb = e'"
      by simp
    have "copied_entry k k2 (ol2 lsb) e'"
      using False fr(1,2) by (auto simp add: copied_entry_def k2a k2m e'_def)
    then have c1: "copied_entry k k' (ol2 lsb) (cl2' lsb)"
      unfolding here using kext_refl x
    proof (rule copied_entry_mono)
      show "ol2 lsb \<noteq> 0 \<longrightarrow> frame_of (ol2 lsb) \<in> allocated k"
        using src by simp
    qed
    have c2: "copied_entry k k' (ol2 i) (cl2' i)" if "i \<in> set rest" for i
    proof -
      from ih that have "copied_entry k2 k' (ol2 i) (cl2' i)"
        by simp
      then show ?thesis
        using x2 kext_refl
      proof (rule copied_entry_mono)
        show "ol2 i \<noteq> 0 \<longrightarrow> frame_of (ol2 i) \<in> allocated k"
          using Cons.prems(4) that by simp
      qed
    qed
    have c3: "cl2' i = cl2 i" if "i \<notin> set (lsb # rest)" for i
      using ih that by simp
    from f kext_trans [OF x2 x] c1 c2 c3 show ?thesis
      by auto
  qed
qed

lemma copy_pt_l1_ok:
  assumes "copy_pt_l1 ms po pc k = (OK, pc', k')"
    and "distinct ms" and "kpages_fresh k"
    and "\<forall>m \<in> set ms. pc m = None"
    and "\<forall>m \<in> set ms. \<forall>i < L2_PT_SIZE. pte po m i \<noteq> 0 \<longrightarrow> frame_of (pte po m i) \<in> allocated k"
  shows "kpages_fresh k' \<and> kext k k'
         \<and> (\<forall>m. m \<notin> set ms \<longrightarrow> pc' m = pc m)
         \<and> (\<forall>m \<in> set ms. (pc' m = None \<longleftrightarrow> po m = None)
               \<and> (\<forall>i < L2_PT_SIZE. copied_entry k k' (pte po m i) (pte pc' m i)))"
  using assms
proof (induction ms arbitrary: pc k)
  case Nil
  then show ?case
    by (simp add: kext_refl)
next
  case (Cons m rest)
  from Cons.prems(2) have d: "m \<notin> set rest" "distinct rest"
    by simp_all
  from Cons.prems(4) have pcm: "pc m = None" and pcr: "\<forall>m \<in> set rest. pc m = None"
    by simp_all
  show ?case
  proof (cases "po m")
    case None
    with Cons.prems(1) have run: "copy_pt_l1 rest po pc k = (OK, pc', k')"
      by simp
    from Cons.prems(5)
    have own: "\<forall>m \<in> set rest. \<forall>i < L2_PT_SIZE.
        pte po m i \<noteq> 0 \<longrightarrow> frame_of (pte po m i) \<in> allocated k"
      by simp
    note ih = Cons.IH [OF run d(2) Cons.prems(3) pcr own]
    from ih d(1) pcm have here: "pc' m = None"
      by simp
    with None have "copied_entry k k' (pte po m i) (pte pc' m i)" for i
      by (simp add: pte_def copied_entry_def)
    with ih here None show ?thesis
      by auto
  next
    case (Some ol2)
    obtain b k1 where km: "kmalloc k = (b, k1)"
      by (cases "kmalloc k") auto
    with Some Cons.prems(1) have b: "b"
      by (cases b) auto
    obtain r cl2 k2 where l2: "copy_pt_l2 [0..<L2_PT_SIZE] m ol2 pc (junk_l2 k1) k1 = (r, cl2, k2)"
      by (cases "copy_pt_l2 [0..<L2_PT_SIZE] m ol2 pc (junk_l2 k1) k1") auto
    with Some km b Cons.prems(1) have r: "r = OK"
      by (auto split: if_splits)
    with Some km b l2 Cons.prems(1)
    have run: "copy_pt_l1 rest po (pc(m := Some cl2)) k2 = (OK, pc', k')"
      by simp
    note x1 = kmalloc_kext [OF km]
    have f1: "kpages_fresh k1"
      using Cons.prems(3) kmalloc_fresh [OF km] by simp
    have own1: "\<forall>i \<in> set [0..<L2_PT_SIZE]. ol2 i \<noteq> 0 \<longrightarrow> frame_of (ol2 i) \<in> allocated k1"
      using Cons.prems(5) Some by (simp add: pte_def kmalloc_frame [OF km])
    from copy_pt_l2_ok [OF l2 [unfolded r] _ f1 own1]
    have f2: "kpages_fresh k2" and x12: "kext k1 k2"
      and c12: "\<forall>i \<in> set [0..<L2_PT_SIZE]. copied_entry k1 k2 (ol2 i) (cl2 i)"
      by simp_all
    note x2 = kext_trans [OF x1 x12]
    have own2: "\<forall>m \<in> set rest. \<forall>i < L2_PT_SIZE.
        pte po m i \<noteq> 0 \<longrightarrow> frame_of (pte po m i) \<in> allocated k2"
      using Cons.prems(5) x2 by (auto simp add: kext_def)
    have pcr2: "\<forall>m' \<in> set rest. (pc(m := Some cl2)) m' = None"
      using pcr d(1) by auto
    note ih = Cons.IH [OF run d(2) f2 pcr2 own2]
    from ih have x: "kext k2 k'" and f: "kpages_fresh k'"
      by simp_all
    from ih d(1) have here: "pc' m = Some cl2"
      by simp
    have c1: "copied_entry k k' (pte po m i) (pte pc' m i)" if "i < L2_PT_SIZE" for i
    proof -
      from c12 that have "copied_entry k1 k2 (ol2 i) (cl2 i)"
        by simp
      then have "copied_entry k k' (ol2 i) (cl2 i)"
        using x1 x
      proof (rule copied_entry_mono)
        show "ol2 i \<noteq> 0 \<longrightarrow> frame_of (ol2 i) \<in> allocated k"
          using Cons.prems(5) Some that by (simp add: pte_def)
      qed
      then show ?thesis
        by (simp add: pte_def Some here)
    qed
    have c2: "(pc' m' = None \<longleftrightarrow> po m' = None)
        \<and> (\<forall>i < L2_PT_SIZE. copied_entry k k' (pte po m' i) (pte pc' m' i))"
      if "m' \<in> set rest" for m'
    proof -
      from ih that have n: "pc' m' = None \<longleftrightarrow> po m' = None"
        and c: "\<forall>i < L2_PT_SIZE. copied_entry k2 k' (pte po m' i) (pte pc' m' i)"
        by simp_all
      have "copied_entry k k' (pte po m' i) (pte pc' m' i)" if i: "i < L2_PT_SIZE" for i
      proof -
        from c i have "copied_entry k2 k' (pte po m' i) (pte pc' m' i)"
          by simp
        then show ?thesis
          using x2 kext_refl
        proof (rule copied_entry_mono)
          show "pte po m' i \<noteq> 0 \<longrightarrow> frame_of (pte po m' i) \<in> allocated k"
            using Cons.prems(5) \<open>m' \<in> set rest\<close> i by simp
        qed
      qed
      with n show ?thesis
        by simp
    qed
    have c3: "pc' m' = pc m'" if "m' \<notin> set (m # rest)" for m'
      using ih that by simp
    from f kext_trans [OF x2 x] c1 c2 c3 here Some show ?thesis
      by auto
  qed
qed

lemma as_copy_regions_ok:
  assumes "as_copy_regions rs newas k = (OK, newas', k')"
  shows "regions newas' = regions newas @ rs \<and> pagetable newas' = pagetable newas
         \<and> stackbase newas' = stackbase newas
         \<and> allocated k' = allocated k \<and> mem k' = mem k
         \<and> kpages_script k' = kpages_script k"
  using assms
proof (induction rs arbitrary: newas k)
  case Nil
  then show ?case by simp
next
  case (Cons oldr rest)
  obtain b k1 where km: "kmalloc k = (b, k1)"
    by (cases "kmalloc k") auto
  with Cons.prems have b: "b"
    by (cases b) auto
  let ?n = "newas\<lparr>regions := regions newas @ [oldr]\<rparr>"
  have same: "\<lparr>as_vbase = as_vbase oldr, size_r = size_r oldr,
               flags = flags oldr, og_flags = og_flags oldr\<rparr> = oldr"
    by (cases oldr) simp
  from Cons.prems km b have run: "as_copy_regions rest ?n k1 = (OK, newas', k')"
    by (simp add: Let_def same)
  from Cons.IH [OF run] kmalloc_frame [OF km] show ?case
    by simp
qed

lemma as_create_ok:
  assumes "as_create k = (Some newas, k1)"
  shows "pagetable newas = Some (\<lambda>i. if i < L1_PT_SIZE then None else junk_l1 k1 i)"
    and "regions newas = []"
    and "allocated k1 = allocated k" and "mem k1 = mem k"
    and "kpages_script k1 = kpages_script k"
proof -
  obtain b1 ka where k1: "kmalloc k = (b1, ka)"
    by (cases "kmalloc k") auto
  obtain b2 kb where k2: "kmalloc ka = (b2, kb)"
    by (cases "kmalloc ka") auto
  from assms k1 k2 have b: "b1" "b2"
    by (cases b1; cases b2; simp add: as_create_def)+
  from assms k1 k2 b have n: "k1 = kb"
    "newas = \<lparr>pagetable = Some (fold (\<lambda>msb pt. pt(msb := None)) [0..<L1_PT_SIZE] (junk_l1 kb)),
              regions = [], stackbase = USERSTACK\<rparr>"
    by (auto simp add: as_create_def)
  show "pagetable newas = Some (\<lambda>i. if i < L1_PT_SIZE then None else junk_l1 k1 i)"
    unfolding n by (simp add: fold_clear)
  from n show "regions newas = []"
    by simp
  from n kmalloc_frame [OF k1] kmalloc_frame [OF k2]
  show "allocated k1 = allocated k" and "mem k1 = mem k"
    and "kpages_script k1 = kpages_script k"
    by simp_all
qed

lemma copied_entry_present:
  assumes "copied_entry k k' e e'" and "e \<noteq> 0" and "frame_of e \<in> allocated k"
    and "kext k k'"
  shows "e' \<noteq> 0"
    and "mem k' (frame_of e') = mem k' (frame_of e)"
    and "mem k' (frame_of e) = mem k (frame_of e)"
    and "e' AND PAGE_FRAME \<noteq> e AND PAGE_FRAME"
    and "e' AND TLBLO_DIRTY = e AND TLBLO_DIRTY"
    and "e' AND TLBLO_VALID = TLBLO_VALID"
    and "frame_of e' \<in> allocated k'"
proof -
  from assms(1,2) obtain np where np: "np \<notin> allocated k" "np \<in> allocated k'"
    "np AND NOT PAGE_FRAME = 0"
    "e' = (KVADDR_TO_PADDR np AND PAGE_FRAME) OR (e AND TLBLO_DIRTY) OR TLBLO_VALID"
    "mem k' np = mem k (frame_of e)"
    by (auto simp add: copied_entry_def)
  have pf: "e' AND PAGE_FRAME = KVADDR_TO_PADDR np"
    unfolding np(4) entry_frame by (rule aligned_KVADDR_TO_PADDR [OF np(3)])
  then have fo: "frame_of e' = np"
    by (simp add: frame_of_def)
  show "e' \<noteq> 0"
    unfolding np(4) by (rule entry_nonzero)
  show old: "mem k' (frame_of e) = mem k (frame_of e)"
    using assms(3,4) by (simp add: kext_def)
  show "mem k' (frame_of e') = mem k' (frame_of e)"
    using np(5) old fo by simp
  show "e' AND PAGE_FRAME \<noteq> e AND PAGE_FRAME"
  proof
    assume "e' AND PAGE_FRAME = e AND PAGE_FRAME"
    then have "frame_of e' = frame_of e"
      by (simp add: frame_of_def)
    with fo assms(3) np(1) show False
      by simp
  qed
  show "e' AND TLBLO_DIRTY = e AND TLBLO_DIRTY"
    unfolding np(4) by (rule entry_dirty)
  show "e' AND TLBLO_VALID = TLBLO_VALID"
    unfolding np(4) by (rule entry_valid)
  show "frame_of e' \<in> allocated k'"
    using fo np(2) by simp
qed

text \<open>
  The copy of a sound address space. When \<^verbatim>\<open>as_copy\<close> succeeds, the new address
  space has the regions of the old one, and for every pair of indices the old
  entry is non-zero exactly when the new one is. For a non-zero entry the two
  pages have the same contents (and the old page has kept its contents), the
  frame numbers differ, and the dirty and valid bits agree. This needs an
  allocator that hands out fresh pages and an old table whose entries are valid
  and name allocated pages; both properties still hold afterwards, for the old
  and for the new table. An address space whose page has been freed by a failed
  copy is not in that case, see the last subsection.
\<close>

theorem as_copy_page_table:
  assumes "as_copy old k = (OK, ret, k')"
    and "kpages_fresh k"
    and "\<forall>po. pagetable old = Some po \<longrightarrow> pt_invariant po k"
  shows "\<exists>po pn new. pagetable old = Some po \<and> ret = Some new \<and> pagetable new = Some pn
           \<and> regions new = regions old \<and> stackbase new = stackbase old
           \<and> (\<forall>msb < L1_PT_SIZE. \<forall>lsb < L2_PT_SIZE.
                 (pte po msb lsb \<noteq> 0 \<longleftrightarrow> pte pn msb lsb \<noteq> 0)
                 \<and> (pte po msb lsb \<noteq> 0 \<longrightarrow>
                       mem k' (frame_of (pte pn msb lsb)) = mem k' (frame_of (pte po msb lsb))
                       \<and> mem k' (frame_of (pte po msb lsb)) = mem k (frame_of (pte po msb lsb))
                       \<and> pte pn msb lsb AND PAGE_FRAME \<noteq> pte po msb lsb AND PAGE_FRAME
                       \<and> pte pn msb lsb AND TLBLO_DIRTY = pte po msb lsb AND TLBLO_DIRTY
                       \<and> pte pn msb lsb AND TLBLO_VALID = pte po msb lsb AND TLBLO_VALID))
           \<and> kpages_fresh k' \<and> pt_invariant po k' \<and> pt_invariant pn k'"
proof -
  obtain c k1 where cr: "as_create k = (c, k1)"
    by (cases "as_create k") auto
  with assms(1) obtain newas0 where c: "c = Some newas0"
    by (cases c) (auto simp add: as_copy_def)
  note cr = cr [unfolded c]
  obtain r newas k2
    where rg: "as_copy_regions (regions old) (newas0\<lparr>stackbase := stackbase old\<rparr>) k1 = (r, newas, k2)"
    by (cases "as_copy_regions (regions old) (newas0\<lparr>stackbase := stackbase old\<rparr>) k1") auto
  with assms(1) cr have r: "r = OK"
    by (auto simp add: as_copy_def split: if_splits)
  note rg = rg [unfolded r]
  obtain res ptc k3 where cp: "copy_pt (pagetable old) (pagetable newas) k2 = (res, ptc, k3)"
    by (cases "copy_pt (pagetable old) (pagetable newas) k2") auto
  with assms(1) cr rg have res: "res = OK" and ret: "ret = Some (newas\<lparr>pagetable := ptc\<rparr>)"
    and k': "k' = k3"
    by (auto simp add: as_copy_def split: if_splits)
  note cp = cp [unfolded res]
  note c1 = as_create_ok [OF cr]
  note c2 = as_copy_regions_ok [OF rg]
  define pc0 where "pc0 = (\<lambda>i. if i < L1_PT_SIZE then None else junk_l1 k1 i)"
  have ptn: "pagetable newas = Some pc0"
    using c1(1) c2 by (simp add: pc0_def)
  from cp ptn obtain po where po: "pagetable old = Some po"
    by (cases "pagetable old") (auto simp add: copy_pt_def)
  from cp ptn po obtain pn where run: "copy_pt_l1 [0..<L1_PT_SIZE] po pc0 k2 = (OK, pn, k3)"
    and ptc: "ptc = Some pn"
    by (auto simp add: copy_pt_def split: prod.splits)
  have a2: "allocated k2 = allocated k" and m2: "mem k2 = mem k"
    and s2: "kpages_script k2 = kpages_script k"
    using c1 c2 by simp_all
  have f2: "kpages_fresh k2"
    using assms(2) by (simp add: kpages_fresh_def a2 s2)
  from assms(3) po have inv: "pt_invariant po k"
    by simp
  have own: "\<forall>m \<in> set [0..<L1_PT_SIZE]. \<forall>i < L2_PT_SIZE.
      pte po m i \<noteq> 0 \<longrightarrow> frame_of (pte po m i) \<in> allocated k2"
    using inv by (simp add: pt_invariant_def a2)
  have none: "\<forall>m \<in> set [0..<L1_PT_SIZE]. pc0 m = None"
    by (simp add: pc0_def)
  from copy_pt_l1_ok [OF run _ f2 none own]
  have f3: "kpages_fresh k3" and x: "kext k2 k3"
    and ce: "\<forall>m \<in> set [0..<L1_PT_SIZE]. \<forall>i < L2_PT_SIZE.
                copied_entry k2 k3 (pte po m i) (pte pn m i)"
    by simp_all
  have entry: "(pte po msb lsb \<noteq> 0 \<longleftrightarrow> pte pn msb lsb \<noteq> 0)
       \<and> (pte po msb lsb \<noteq> 0 \<longrightarrow>
             mem k' (frame_of (pte pn msb lsb)) = mem k' (frame_of (pte po msb lsb))
             \<and> mem k' (frame_of (pte po msb lsb)) = mem k (frame_of (pte po msb lsb))
             \<and> pte pn msb lsb AND PAGE_FRAME \<noteq> pte po msb lsb AND PAGE_FRAME
             \<and> pte pn msb lsb AND TLBLO_DIRTY = pte po msb lsb AND TLBLO_DIRTY
             \<and> pte pn msb lsb AND TLBLO_VALID = pte po msb lsb AND TLBLO_VALID
             \<and> frame_of (pte pn msb lsb) \<in> allocated k')"
    if "msb < L1_PT_SIZE" and "lsb < L2_PT_SIZE" for msb lsb
  proof (cases "pte po msb lsb = 0")
    case True
    from ce that have "copied_entry k2 k3 (pte po msb lsb) (pte pn msb lsb)"
      by simp
    with True show ?thesis
      by (simp add: copied_entry_def)
  next
    case False
    from ce that have c: "copied_entry k2 k3 (pte po msb lsb) (pte pn msb lsb)"
      by simp
    from inv that False have v: "pte po msb lsb AND TLBLO_VALID = TLBLO_VALID"
      and o: "frame_of (pte po msb lsb) \<in> allocated k2"
      by (simp_all add: pt_invariant_def a2)
    from copied_entry_present [OF c False o x] False v show ?thesis
      by (simp add: k' m2)
  qed
  have i1: "pt_invariant po k'"
    using inv x by (auto simp add: pt_invariant_def kext_def a2 k')
  have i2: "pt_invariant pn k'"
    unfolding pt_invariant_def
  proof (intro ballI impI)
    fix msb lsb
    assume "msb \<in> set [0..<L1_PT_SIZE]" and "lsb \<in> set [0..<L2_PT_SIZE]"
      and nz: "pte pn msb lsb \<noteq> 0"
    then have b: "msb < L1_PT_SIZE" "lsb < L2_PT_SIZE"
      by simp_all
    from entry [OF b] nz inv b
    show "pte pn msb lsb AND TLBLO_VALID = TLBLO_VALID \<and> frame_of (pte pn msb lsb) \<in> allocated k'"
      by (simp add: pt_invariant_def)
  qed
  have all: "\<forall>msb < L1_PT_SIZE. \<forall>lsb < L2_PT_SIZE.
                 (pte po msb lsb \<noteq> 0 \<longleftrightarrow> pte pn msb lsb \<noteq> 0)
                 \<and> (pte po msb lsb \<noteq> 0 \<longrightarrow>
                       mem k' (frame_of (pte pn msb lsb)) = mem k' (frame_of (pte po msb lsb))
                       \<and> mem k' (frame_of (pte po msb lsb)) = mem k (frame_of (pte po msb lsb))
                       \<and> pte pn msb lsb AND PAGE_FRAME \<noteq> pte po msb lsb AND PAGE_FRAME
                       \<and> pte pn msb lsb AND TLBLO_DIRTY = pte po msb lsb AND TLBLO_DIRTY
                       \<and> pte pn msb lsb AND TLBLO_VALID = pte po msb lsb AND TLBLO_VALID)"
    using entry by blast
  have rgs: "regions (newas\<lparr>pagetable := ptc\<rparr>) = regions old"
    and stk: "stackbase (newas\<lparr>pagetable := ptc\<rparr>) = stackbase old"
    using c1(2) c2 by simp_all
  have f': "kpages_fresh k'"
    using f3 by (simp add: k')
  show ?thesis
    by (rule exI [of _ po], rule exI [of _ pn], rule exI [of _ "newas\<lparr>pagetable := ptc\<rparr>"])
      (intro conjI po ret rgs stk all f' i1 i2, simp add: ptc)
qed

subsection \<open>Destroying a page table, and a failed copy\<close>

lemma free_kpages_allocated [simp]: "allocated (free_kpages v k) = allocated k - {v}"
  by (simp add: free_kpages_def)

lemma kfree_allocated [simp]: "allocated (kfree k) = allocated k"
  by (simp add: kfree_def)

lemma destroy_pt_l2_mono: "allocated (snd (destroy_pt_l2 ls l2 k)) \<subseteq> allocated k"
proof (induction ls arbitrary: l2 k)
  case Nil
  then show ?case by simp
next
  case (Cons lsb rest)
  show ?case
  proof (cases "l2 lsb = 0")
    case True
    with Cons.IH [of l2 k] show ?thesis by simp
  next
    case False
    let ?k1 = "free_kpages (PADDR_TO_KVADDR (l2 lsb AND PAGE_FRAME)) k"
    have "allocated (snd (destroy_pt_l2 rest (l2(lsb := 0)) ?k1)) \<subseteq> allocated ?k1"
      by (rule Cons.IH)
    also have "\<dots> \<subseteq> allocated k"
      by auto
    finally show ?thesis
      using False by simp
  qed
qed

lemma destroy_pt_l2_frees:
  "i \<in> set ls \<Longrightarrow> l2 i \<noteq> 0 \<Longrightarrow> frame_of (l2 i) \<notin> allocated (snd (destroy_pt_l2 ls l2 k))"
proof (induction ls arbitrary: l2 k)
  case Nil
  then show ?case by simp
next
  case (Cons lsb rest)
  show ?case
  proof (cases "i = lsb")
    case True
    let ?k1 = "free_kpages (PADDR_TO_KVADDR (l2 lsb AND PAGE_FRAME)) k"
    have "frame_of (l2 i) \<notin> allocated ?k1"
      using True by (simp add: frame_of_def)
    moreover have "allocated (snd (destroy_pt_l2 rest (l2(lsb := 0)) ?k1)) \<subseteq> allocated ?k1"
      by (rule destroy_pt_l2_mono)
    ultimately show ?thesis
      using True Cons.prems(2) by auto
  next
    case False
    with Cons.prems have i: "i \<in> set rest"
      by simp
    show ?thesis
    proof (cases "l2 lsb = 0")
      case True
      with Cons.IH [of l2 k, OF i Cons.prems(2)] show ?thesis
        by simp
    next
      case z: False
      let ?k1 = "free_kpages (PADDR_TO_KVADDR (l2 lsb AND PAGE_FRAME)) k"
      have step: "destroy_pt_l2 (lsb # rest) l2 k = destroy_pt_l2 rest (l2(lsb := 0)) ?k1"
        using z by simp
      have a: "(l2(lsb := 0)) i = l2 i"
        using False by simp
      have "frame_of ((l2(lsb := 0)) i) \<notin> allocated (snd (destroy_pt_l2 rest (l2(lsb := 0)) ?k1))"
        using i by (rule Cons.IH) (simp add: False Cons.prems(2))
      then show ?thesis
        unfolding step a .
    qed
  qed
qed

lemma destroy_pt_l1_mono: "allocated (destroy_pt_l1 ms pt k) \<subseteq> allocated k"
proof (induction ms arbitrary: pt k)
  case Nil
  then show ?case by simp
next
  case (Cons m rest)
  show ?case
  proof (cases "pt m")
    case None
    with Cons.IH show ?thesis by simp
  next
    case (Some l2)
    obtain l2' k1 where d: "destroy_pt_l2 [0..<L2_PT_SIZE] l2 k = (l2', k1)"
      by (cases "destroy_pt_l2 [0..<L2_PT_SIZE] l2 k") auto
    from destroy_pt_l2_mono [of "[0..<L2_PT_SIZE]" l2 k] d have "allocated k1 \<subseteq> allocated k"
      by simp
    moreover have "allocated (destroy_pt_l1 rest (pt(m := Some l2')) (kfree k1))
        \<subseteq> allocated (kfree k1)"
      by (rule Cons.IH)
    ultimately show ?thesis
      using Some d by simp
  qed
qed

lemma destroy_pt_l1_frees:
  "m \<in> set ms \<Longrightarrow> pt m = Some l2 \<Longrightarrow> i < L2_PT_SIZE \<Longrightarrow> l2 i \<noteq> 0
   \<Longrightarrow> frame_of (l2 i) \<notin> allocated (destroy_pt_l1 ms pt k)"
proof (induction ms arbitrary: pt k)
  case Nil
  then show ?case by simp
next
  case (Cons m' rest)
  show ?case
  proof (cases "m' = m")
    case True
    obtain l2' k1 where d: "destroy_pt_l2 [0..<L2_PT_SIZE] l2 k = (l2', k1)"
      by (cases "destroy_pt_l2 [0..<L2_PT_SIZE] l2 k") auto
    from destroy_pt_l2_frees [of i "[0..<L2_PT_SIZE]" l2 k] Cons.prems(3,4) d
    have "frame_of (l2 i) \<notin> allocated k1"
      by simp
    moreover have "allocated (destroy_pt_l1 rest (pt(m := Some l2')) (kfree k1))
        \<subseteq> allocated (kfree k1)"
      by (rule destroy_pt_l1_mono)
    ultimately show ?thesis
      using True Cons.prems(2) d by auto
  next
    case False
    with Cons.prems(1) have m: "m \<in> set rest"
      by simp
    show ?thesis
    proof (cases "pt m'")
      case None
      with Cons.IH [of pt k, OF m Cons.prems(2,3,4)] show ?thesis
        by simp
    next
      case (Some l2a)
      obtain l2' k1 where d: "destroy_pt_l2 [0..<L2_PT_SIZE] l2a k = (l2', k1)"
        by (cases "destroy_pt_l2 [0..<L2_PT_SIZE] l2a k") auto
      have step: "destroy_pt_l1 (m' # rest) pt k
          = destroy_pt_l1 rest (pt(m' := Some l2')) (kfree k1)"
        using Some d by simp
      from False Cons.prems(2) have "(pt(m' := Some l2')) m = Some l2"
        by simp
      with m have "frame_of (l2 i)
          \<notin> allocated (destroy_pt_l1 rest (pt(m' := Some l2')) (kfree k1))"
        using Cons.prems(3,4) by (rule Cons.IH)
      then show ?thesis
        unfolding step .
    qed
  qed
qed

lemma destroy_pt_frees:
  "m < L1_PT_SIZE \<Longrightarrow> pt m = Some l2 \<Longrightarrow> i < L2_PT_SIZE \<Longrightarrow> l2 i \<noteq> 0
   \<Longrightarrow> frame_of (l2 i) \<notin> allocated (destroy_pt (Some pt) k)"
  using destroy_pt_l1_frees [of m "[0..<L1_PT_SIZE]" pt l2 i k]
  by (simp add: destroy_pt_def)

lemma as_destroy_frees:
  "pagetable a = Some pt \<Longrightarrow> m < L1_PT_SIZE \<Longrightarrow> pt m = Some l2 \<Longrightarrow> i < L2_PT_SIZE
   \<Longrightarrow> l2 i \<noteq> 0 \<Longrightarrow> frame_of (l2 i) \<notin> allocated (as_destroy (Some a) k)"
  using destroy_pt_frees [of m pt l2 i "fold (\<lambda>current. kfree) (regions a) k"]
  by (simp add: as_destroy_def)

lemma copy_pt_l1_skip:
  "copy_pt_l1 ms po pc k = copy_pt_l1 (filter (\<lambda>m. po m \<noteq> None) ms) po pc k"
  by (induction ms arbitrary: pc k) (auto split: option.splits prod.splits bool.splits)

lemma filter_upt_eq: "filter (\<lambda>m. m = a) [0..<n] = (if a < n then [a] else [])"
  by (induction n) auto

lemma copy_pt_l2_zeros:
  "\<forall>i \<in> set ls. ol2 i = 0
   \<Longrightarrow> copy_pt_l2 ls msb ol2 pc cl2 k = (OK, (\<lambda>i. if i \<in> set ls then 0 else cl2 i), k)"
  by (induction ls arbitrary: cl2) (auto simp add: fun_eq_iff)

lemma copy_pt_l1_one_page:
  "copy_pt_l1 [0..<L1_PT_SIZE] pt_one_page pc k = copy_pt_l1 [2] pt_one_page pc k"
proof -
  have "(\<lambda>m. pt_one_page m \<noteq> None) = (\<lambda>m. m = 2)"
    by (rule ext) (simp add: pt_one_page_def)
  then have "filter (\<lambda>m. pt_one_page m \<noteq> None) [0..<L1_PT_SIZE] = [2]"
    by (simp add: filter_upt_eq L1_PT_SIZE_def)
  with copy_pt_l1_skip [of "[0..<L1_PT_SIZE]" pt_one_page pc k] show ?thesis
    by simp
qed

lemma upt_L2_PT_SIZE: "[0..<L2_PT_SIZE] = 0 # [Suc 0..<L2_PT_SIZE]"
  by (simp add: L2_PT_SIZE_def upt_conv_Cons)

lemma pte_pt_one_page:
  "pte pt_one_page msb lsb = (if msb = 2 \<and> lsb = 0 then 0x00010600 else 0)"
  by (simp add: pte_def pt_one_page_def l2_one_page_def)

lemma frame_of_one_page: "frame_of 0x00010600 = 0x80010000"
  by (simp add: frame_of_def PADDR_TO_KVADDR_def PAGE_FRAME_def MIPS_KSEG0_def)

lemma fold_clear_const: "fold (\<lambda>i f. f(i := z)) [0..<n] (\<lambda>_. z) = (\<lambda>_. z)"
  by (simp add: fold_clear)

lemma as_copy_scenario:
  "as_copy addrspace_old (kernel_script ps) =
     (case copy_pt_l2 [0..<L2_PT_SIZE] 2 l2_one_page (\<lambda>_. None) (\<lambda>_. 0)
             ((kernel_script ps)\<lparr>kmalloc_script := [], kheap := 4\<rparr>) of
        (r, cl2, k') \<Rightarrow>
          if r = OK
          then (OK,
                Some \<lparr>pagetable = Some ((\<lambda>_. None)(2 := Some cl2)),
                      regions = [region_data], stackbase = USERSTACK\<rparr>,
                k')
          else (r, None,
                as_destroy (Some \<lparr>pagetable = Some ((\<lambda>_. None)(2 := Some cl2)),
                                   regions = [region_data], stackbase = USERSTACK\<rparr>) k'))"
proof -
  have same: "\<lparr>as_vbase = as_vbase region_data, size_r = size_r region_data,
               flags = flags region_data, og_flags = og_flags region_data\<rparr> = region_data"
    by (cases region_data) simp
  have p2: "pt_one_page 2 = Some l2_one_page"
    by (simp add: pt_one_page_def)
  show ?thesis
    by (simp add: as_copy_def as_create_def kmalloc_def kernel_script_def kernel0_def
        addrspace_old_def copy_pt_def copy_pt_l1_one_page fold_clear_const same p2 Let_def
        split: prod.split)
qed

lemma as_copy_no_page:
  "as_copy addrspace_old (kernel_script []) =
     (ENOMEM, None,
      as_destroy (Some \<lparr>pagetable = Some ((\<lambda>_. None)(2 := Some l2_one_page)),
                         regions = [region_data], stackbase = USERSTACK\<rparr>)
        ((kernel_script [])\<lparr>kmalloc_script := [], kheap := 4\<rparr>))"
proof -
  have a: "(\<lambda>_. 0)(0 := l2_one_page 0) = l2_one_page"
    by (simp add: l2_one_page_def)
  have n: "l2_one_page 0 \<noteq> 0"
    by (simp add: l2_one_page_def)
  have s: "kpages_script (kernel_script []) = []"
    by (simp add: kernel_script_def)
  show ?thesis
    unfolding as_copy_scenario upt_L2_PT_SIZE
    by (simp add: alloc_kpages_def a n s)
qed

text \<open>
  C1, evaluated where it fails. The source has one resident page and the
  allocator has no page left: \<^verbatim>\<open>copy_pt\<close> has already stored the source's entry
  in the copy when \<^verbatim>\<open>alloc_kpages\<close> fails, and \<^verbatim>\<open>as_destroy\<close> of the copy then
  frees the page that entry names. \<^verbatim>\<open>as_copy\<close> returns ENOMEM and the page of the
  source, allocated before the call, is no longer allocated after it.
\<close>

theorem as_copy_frees_source_frame:
  "fst (as_copy addrspace_old (kernel_script [])) = ENOMEM
   \<and> pagetable addrspace_old = Some pt_one_page
   \<and> pte pt_one_page 2 0 = 0x00010600
   \<and> frame_of (pte pt_one_page 2 0) \<in> allocated (kernel_script [])
   \<and> frame_of (pte pt_one_page 2 0)
       \<notin> allocated (snd (snd (as_copy addrspace_old (kernel_script []))))"
proof -
  let ?a = "\<lparr>pagetable = Some ((\<lambda>_. None)(2 := Some l2_one_page)),
             regions = [region_data], stackbase = USERSTACK\<rparr>"
  let ?k = "(kernel_script [])\<lparr>kmalloc_script := [], kheap := 4\<rparr>"
  have n: "l2_one_page 0 \<noteq> 0" and v: "l2_one_page 0 = 0x00010600"
    by (simp_all add: l2_one_page_def)
  have "frame_of (l2_one_page 0) \<notin> allocated (as_destroy (Some ?a) ?k)"
    by (rule as_destroy_frees [of ?a "(\<lambda>_. None)(2 := Some l2_one_page)" 2 l2_one_page 0 ?k])
      (simp_all add: L1_PT_SIZE_def L2_PT_SIZE_def n)
  then have "frame_of (pte pt_one_page 2 0)
       \<notin> allocated (snd (snd (as_copy addrspace_old (kernel_script []))))"
    by (simp add: as_copy_no_page pte_pt_one_page v)
  moreover have "frame_of (pte pt_one_page 2 0) \<in> allocated (kernel_script [])"
    by (simp add: pte_pt_one_page frame_of_one_page kernel_script_def)
  moreover have "fst (as_copy addrspace_old (kernel_script [])) = ENOMEM"
    by (simp add: as_copy_no_page)
  moreover have "pagetable addrspace_old = Some pt_one_page"
    by (simp add: addrspace_old_def)
  moreover have "pte pt_one_page 2 0 = 0x00010600"
    by (simp add: pte_pt_one_page)
  ultimately show ?thesis
    by (intro conjI)
qed

lemma as_copy_one_page:
  "as_copy addrspace_old (kernel_script [0x80020000]) =
     (OK,
      Some \<lparr>pagetable = Some ((\<lambda>_. None)(2 := Some ((\<lambda>_. 0)(0 := 0x00020600)))),
            regions = [region_data], stackbase = USERSTACK\<rparr>,
      (kernel_script [0x80020000])
        \<lparr>kmalloc_script := [], kheap := 4, kpages_script := [],
          allocated := {0x80020000, 0x80010000},
          mem := (\<lambda>_. [])(0x80010000 := page_of_sevens, 0x80020000 := page_of_sevens)\<rparr>)"
proof -
  have z: "\<forall>i \<in> set [Suc 0..<L2_PT_SIZE]. l2_one_page i = 0"
    by (simp add: l2_one_page_def)
  have e: "(KVADDR_TO_PADDR 0x80020000 AND PAGE_FRAME) OR (l2_one_page 0 AND TLBLO_DIRTY)
             OR TLBLO_VALID = 0x00020600"
    by (simp add: KVADDR_TO_PADDR_def MIPS_KSEG0_def PAGE_FRAME_def l2_one_page_def
        TLBLO_DIRTY_def TLBLO_VALID_def)
  have s: "PADDR_TO_KVADDR (l2_one_page 0 AND PAGE_FRAME) = 0x80010000"
    by (simp add: PADDR_TO_KVADDR_def MIPS_KSEG0_def PAGE_FRAME_def l2_one_page_def)
  have n: "l2_one_page 0 \<noteq> 0"
    by (simp add: l2_one_page_def)
  show ?thesis
    unfolding as_copy_scenario upt_L2_PT_SIZE
    by (simp add: alloc_kpages_def kernel_script_def
        copy_pt_l2_zeros [OF z] e s n memmove_def bzero_def kernel0_def fun_eq_iff)
qed

text \<open>
  An instance of the copy of a sound address space: the address space with one
  resident page, copied when the allocator has one page to give.
\<close>

theorem as_copy_page_table_witness:
  "kpages_fresh (kernel_script [0x80020000])
   \<and> pt_invariant pt_one_page (kernel_script [0x80020000])
   \<and> 2 < L1_PT_SIZE \<and> 0 < L2_PT_SIZE \<and> pte pt_one_page 2 0 \<noteq> 0
   \<and> (\<exists>new pn k'. as_copy addrspace_old (kernel_script [0x80020000]) = (OK, Some new, k')
          \<and> pagetable new = Some pn
          \<and> regions new = regions addrspace_old
          \<and> pte pn 2 0 \<noteq> 0
          \<and> mem k' (frame_of (pte pn 2 0)) = mem k' (frame_of (pte pt_one_page 2 0))
          \<and> mem k' (frame_of (pte pt_one_page 2 0))
              = mem (kernel_script [0x80020000]) (frame_of (pte pt_one_page 2 0))
          \<and> pte pn 2 0 AND PAGE_FRAME \<noteq> pte pt_one_page 2 0 AND PAGE_FRAME
          \<and> pte pn 2 0 AND TLBLO_DIRTY = pte pt_one_page 2 0 AND TLBLO_DIRTY
          \<and> pte pn 2 0 AND TLBLO_VALID = pte pt_one_page 2 0 AND TLBLO_VALID)"
proof -
  let ?k = "kernel_script [0x80020000]"
  obtain ret k' where e: "as_copy addrspace_old ?k = (OK, ret, k')"
    using as_copy_one_page by blast
  have f: "kpages_fresh ?k"
    by (simp add: kpages_fresh_def kernel_script_def PAGE_FRAME_def)
  have i: "pt_invariant pt_one_page ?k"
    by (simp add: pt_invariant_def pte_pt_one_page frame_of_one_page kernel_script_def
        TLBLO_VALID_def)
  have p: "pagetable addrspace_old = Some pt_one_page"
    by (simp add: addrspace_old_def)
  then have i': "\<forall>po. pagetable addrspace_old = Some po \<longrightarrow> pt_invariant po ?k"
    using i by simp
  have b: "2 < L1_PT_SIZE" "0 < L2_PT_SIZE"
    by (simp_all add: L1_PT_SIZE_def L2_PT_SIZE_def)
  have n: "pte pt_one_page 2 0 \<noteq> 0"
    by (simp add: pte_pt_one_page)
  from as_copy_page_table [OF e f i'] obtain po pn new
    where r: "pagetable addrspace_old = Some po" "ret = Some new" "pagetable new = Some pn"
      "regions new = regions addrspace_old"
      and a: "\<forall>msb < L1_PT_SIZE. \<forall>lsb < L2_PT_SIZE.
                 (pte po msb lsb \<noteq> 0 \<longleftrightarrow> pte pn msb lsb \<noteq> 0)
                 \<and> (pte po msb lsb \<noteq> 0 \<longrightarrow>
                       mem k' (frame_of (pte pn msb lsb)) = mem k' (frame_of (pte po msb lsb))
                       \<and> mem k' (frame_of (pte po msb lsb)) = mem ?k (frame_of (pte po msb lsb))
                       \<and> pte pn msb lsb AND PAGE_FRAME \<noteq> pte po msb lsb AND PAGE_FRAME
                       \<and> pte pn msb lsb AND TLBLO_DIRTY = pte po msb lsb AND TLBLO_DIRTY
                       \<and> pte pn msb lsb AND TLBLO_VALID = pte po msb lsb AND TLBLO_VALID)"
    by (elim exE conjE) (rule that; assumption)
  from r(1) p have po: "po = pt_one_page"
    by simp
  note a2 = a [unfolded po, rule_format, OF b]
  note c = mp [OF a2 [THEN conjunct2] n]
  from a2 [THEN conjunct1] n have nn: "pte pn 2 0 \<noteq> 0"
    by simp
  have "as_copy addrspace_old ?k = (OK, Some new, k')"
    using e r(2) by simp
  with r(3,4) nn c
  have "\<exists>new pn k'. as_copy addrspace_old ?k = (OK, Some new, k')
          \<and> pagetable new = Some pn
          \<and> regions new = regions addrspace_old
          \<and> pte pn 2 0 \<noteq> 0
          \<and> mem k' (frame_of (pte pn 2 0)) = mem k' (frame_of (pte pt_one_page 2 0))
          \<and> mem k' (frame_of (pte pt_one_page 2 0)) = mem ?k (frame_of (pte pt_one_page 2 0))
          \<and> pte pn 2 0 AND PAGE_FRAME \<noteq> pte pt_one_page 2 0 AND PAGE_FRAME
          \<and> pte pn 2 0 AND TLBLO_DIRTY = pte pt_one_page 2 0 AND TLBLO_DIRTY
          \<and> pte pn 2 0 AND TLBLO_VALID = pte pt_one_page 2 0 AND TLBLO_VALID"
    by (intro exI [of _ new] exI [of _ pn] exI [of _ k'] conjI) (elim conjE, assumption)+
  with f i b n show ?thesis
    by (intro conjI)
qed

subsection \<open>The page-table invariant in reachable states\<close>

text \<open>
  A new address space satisfies the invariant, and \<^verbatim>\<open>create_pte\<close>, hence
  \<^verbatim>\<open>vm_fault\<close>, keeps both the invariant and the freshness of the allocator,
  whatever it returns. A failed \<^verbatim>\<open>as_copy\<close> does not keep the invariant of the
  source.
\<close>

lemma pte_exists_pte:
  "pte_exists (Some pt) msb lsb \<longleftrightarrow> pte pt (unat msb) (unat lsb) \<noteq> 0"
  by (simp add: pte_exists_def pte_def split: option.splits)

lemma as_create_invariant:
  assumes "as_create k = (Some newas, k1)"
  shows "\<exists>pt. pagetable newas = Some pt \<and> pt_invariant pt k'"
  using as_create_ok(1) [OF assms]
  by (simp add: pt_invariant_def pte_def)

lemma pt_invariant_kext: "pt_invariant pt k \<Longrightarrow> kext k k' \<Longrightarrow> pt_invariant pt k'"
  by (auto simp add: pt_invariant_def kext_def)

lemma create_pt_l2_invariant:
  assumes "create_pt_l2 pt msb k = (r, pt', k')" and "pt_invariant pt k" and "kpages_fresh k"
  shows "pt_invariant pt' k' \<and> kpages_fresh k' \<and> kext k k'"
proof -
  obtain b k1 where km: "kmalloc k = (b, k1)"
    by (cases "kmalloc k") auto
  have a: "allocated k1 = allocated k"
    by (rule kmalloc_frame(1) [OF km])
  have f: "kpages_fresh k1"
    using assms(3) kmalloc_fresh [OF km] by simp
  have x: "kext k k1"
    by (rule kmalloc_kext [OF km])
  have i: "pt_invariant (pt(unat msb := v)) k1"
    if "\<forall>lsb < L2_PT_SIZE. (case v of None \<Rightarrow> 0 | Some l2 \<Rightarrow> l2 lsb) = 0" for v
    using assms(2) that by (auto simp add: pt_invariant_def pte_def a)
  show ?thesis
  proof (cases "msb < 0xFFFFF800 \<and> pt (unat msb) = None")
    case False
    with assms(1) have "pt' = pt" "k' = k"
      by (auto simp add: create_pt_l2_def split: if_splits)
    with assms(2,3) show ?thesis
      by (simp add: kext_refl)
  next
    case True
    show ?thesis
    proof (cases b)
      case False
      with True assms(1) km have "pt' = pt(unat msb := None)" "k' = k1"
        by (simp_all add: create_pt_l2_def)
      with i [of None] f x show ?thesis
        by simp
    next
      case b: True
      define l2 where "l2 = fold (\<lambda>lsb l2. l2(lsb := 0)) [0..<L2_PT_SIZE] (junk_l2 k1)"
      from True assms(1) km b have "pt' = pt(unat msb := Some l2)" "k' = k1"
        by (auto simp add: create_pt_l2_def l2_def)
      moreover have "\<forall>lsb < L2_PT_SIZE. l2 lsb = 0"
        by (simp add: l2_def fold_clear)
      ultimately show ?thesis
        using i [of "Some l2"] f x by simp
    qed
  qed
qed

lemma create_pte_invariant:
  assumes "create_pte pt msb lsb dirty k = (r, pt', k')"
    and "pt_invariant pt k" and "kpages_fresh k" and "dirty AND PAGE_FRAME = 0"
  shows "pt_invariant pt' k' \<and> kpages_fresh k' \<and> kext k k'"
proof -
  obtain r1 pt1 k1
    where s1: "(if pt (unat msb) = None then create_pt_l2 pt msb k else (OK, pt, k)) = (r1, pt1, k1)"
    by (cases "if pt (unat msb) = None then create_pt_l2 pt msb k else (OK, pt, k)") auto
  have i1: "pt_invariant pt1 k1 \<and> kpages_fresh k1 \<and> kext k k1"
  proof (cases "pt (unat msb) = None")
    case True
    with s1 have "create_pt_l2 pt msb k = (r1, pt1, k1)"
      by simp
    from create_pt_l2_invariant [OF this assms(2,3)] show ?thesis .
  next
    case False
    with s1 assms(2,3) show ?thesis
      by (simp add: kext_refl)
  qed
  show ?thesis
  proof (cases "r = OK")
    case False
    obtain v k2 where al: "alloc_kpages k1 = (v, k2)"
      by (cases "alloc_kpages k1") auto
    from assms(1) s1 False al have "pt' = pt1 \<and> (k' = k1 \<or> k' = k2 \<and> v = 0)"
      by (auto simp add: create_pte_def Let_def split: if_splits option.splits)
    moreover have "v = 0 \<Longrightarrow> kpages_fresh k2 \<and> kext k1 k2 "
      using al i1
      by (auto simp add: alloc_kpages_def kpages_fresh_def kext_def split: list.splits if_splits)
    ultimately show ?thesis
      using i1 by (auto intro: pt_invariant_kext kext_trans)
  next
    case True
    with assms(1) s1 obtain l2 v k2 where ok: "r1 = OK" "pt1 (unat msb) = Some l2"
      "l2 (unat lsb) = 0" "alloc_kpages k1 = (v, k2)" "v \<noteq> 0"
      "pt' = pt1(unat msb := Some (l2(unat lsb :=
              (KVADDR_TO_PADDR v AND PAGE_FRAME) OR dirty OR TLBLO_VALID)))"
      "k' = bzero v k2"
      by (auto simp add: create_pte_def Let_def split: if_splits option.splits prod.splits)
    from i1 have f1: "kpages_fresh k1"
      by simp
    note fr = alloc_kpages_fresh [OF ok(4,5) f1]
    define e where "e = (KVADDR_TO_PADDR v AND PAGE_FRAME) OR dirty OR TLBLO_VALID"
    have ef: "e AND PAGE_FRAME = KVADDR_TO_PADDR v"
    proof -
      have "TLBLO_VALID AND PAGE_FRAME = 0"
        by (simp add: TLBLO_VALID_def PAGE_FRAME_def)
      then have "e AND PAGE_FRAME = KVADDR_TO_PADDR v AND PAGE_FRAME"
        unfolding e_def using assms(4)
        by (simp add: bit.conj_disj_distrib2 and.assoc)
      then show ?thesis
        by (simp add: aligned_KVADDR_TO_PADDR [OF fr(2)])
    qed
    then have fo: "frame_of e = v"
      by (simp add: frame_of_def)
    have ev: "e AND TLBLO_VALID = TLBLO_VALID"
      unfolding e_def by (rule entry_valid)
    have a': "allocated k' = insert v (allocated k1)" and m': "\<forall>a \<in> allocated k1. mem k' a = mem k1 a"
      using fr(1) by (auto simp add: ok(7) bzero_def fr(3,4))
    have x': "kext k1 k'"
      by (auto simp add: kext_def a' m')
    have f': "kpages_fresh k'"
      using fr(5) by (simp add: kpages_fresh_def ok(7) bzero_def fr(3))
    have i1': "pt_invariant pt1 k'"
      using i1 x' by (auto intro: pt_invariant_kext)
    have pt': "pt' = pt1(unat msb := Some (l2(unat lsb := e)))"
      by (simp add: ok(6) e_def)
    have "pt_invariant pt' k'"
      unfolding pt_invariant_def
    proof (intro ballI impI)
      fix m i
      assume r: "m \<in> set [0..<L1_PT_SIZE]" "i \<in> set [0..<L2_PT_SIZE]"
        and nz: "pte pt' m i \<noteq> 0"
      show "pte pt' m i AND TLBLO_VALID = TLBLO_VALID \<and> frame_of (pte pt' m i) \<in> allocated k'"
      proof (cases "m = unat msb \<and> i = unat lsb")
        case True
        then have "pte pt' m i = e"
          by (simp add: pte_def pt')
        with ev fo show ?thesis
          by (simp add: a')
      next
        case False
        with ok(2) have "pte pt' m i = pte pt1 m i"
          by (auto simp add: pte_def pt')
        with i1' r nz show ?thesis
          by (simp add: pt_invariant_def)
      qed
    qed
    with f' x' i1 show ?thesis
      by (auto intro: kext_trans)
  qed
qed

lemma vm_fault_tlb_invariant:
  assumes "vm_fault_tlb p as pt faultaddress k = (r, curproc', k')"
    and "pt_invariant pt k" and "kpages_fresh k"
  shows "\<exists>p' as'. curproc' = Some p' \<and> p_addrspace p' = Some as' \<and> pagetable as' = Some pt
           \<and> pt_invariant pt k' \<and> kpages_fresh k'"
proof -
  from assms(1) have c: "curproc' = Some (p\<lparr>p_addrspace := Some (as\<lparr>pagetable := Some pt\<rparr>)\<rparr>)"
    and a: "allocated k' = allocated k" and s: "kpages_script k' = kpages_script k"
    by (auto simp add: vm_fault_tlb_def Let_def splhigh_def splx_def tlb_random_def
        split: option.splits)
  from assms(2,3) have "pt_invariant pt k'" and "kpages_fresh k'"
    by (simp_all add: pt_invariant_def kpages_fresh_def a s)
  with c show ?thesis
    by simp
qed

lemma vm_fault_invariant:
  assumes "vm_fault faulttype faultaddress (Some p) k = (r, curproc', k')"
    and "p_addrspace p = Some as" and "pagetable as = Some pt"
    and "pt_invariant pt k" and "kpages_fresh k"
  shows "\<exists>p' as' pt'. curproc' = Some p' \<and> p_addrspace p' = Some as'
           \<and> pagetable as' = Some pt' \<and> pt_invariant pt' k' \<and> kpages_fresh k'"
proof -
  let ?fa = "faultaddress AND PAGE_FRAME"
  have unchanged: ?thesis if "curproc' = Some p" and "k' = k"
    using that assms(2-5) by simp
  show ?thesis
  proof (cases "faulttype = VM_FAULT_READONLY
      \<or> (faulttype \<noteq> VM_FAULT_READ \<and> faulttype \<noteq> VM_FAULT_WRITE)
      \<or> faultaddress = 0 \<or> regions as = []")
    case True
    with assms(1-3) have "curproc' = Some p \<and> k' = k"
      by (auto simp add: vm_fault_def Let_def proc_getas_def split: if_splits)
    then show ?thesis
      using unchanged by simp
  next
    case False
    then have step: "vm_fault faulttype faultaddress (Some p) k =
        (if \<not> pte_exists (Some pt) (l1_index ?fa) (l2_index ?fa)
         then (case vm_fault_region (regions as) ?fa of
                 None \<Rightarrow> (EFAULT, Some p, k)
               | Some cur \<Rightarrow>
                   (let dirty = (if flags cur AND PF_W = PF_W then TLBLO_DIRTY else 0)
                    in if flags cur AND PF_W \<noteq> PF_W \<and> faulttype = VM_FAULT_WRITE
                       then (EFAULT, Some p, k)
                       else case create_pte pt (l1_index ?fa) (l2_index ?fa) dirty k of
                              (result, pt', k') \<Rightarrow>
                                if result \<noteq> OK
                                then (result,
                                      Some (p\<lparr>p_addrspace := Some (as\<lparr>pagetable := Some pt'\<rparr>)\<rparr>),
                                      k')
                                else vm_fault_tlb p as pt' ?fa k'))
         else vm_fault_tlb p as pt ?fa k)"
      using assms(2,3) by (auto simp add: vm_fault_def Let_def proc_getas_def)
    note run = assms(1) [unfolded step]
    show ?thesis
    proof (cases "pte_exists (Some pt) (l1_index ?fa) (l2_index ?fa)")
      case True
      with run have "vm_fault_tlb p as pt ?fa k = (r, curproc', k')"
        by simp
      from vm_fault_tlb_invariant [OF this assms(4,5)] show ?thesis
        by blast
    next
      case ne: False
      show ?thesis
      proof (cases "vm_fault_region (regions as) ?fa")
        case None
        with ne run have "curproc' = Some p \<and> k' = k"
          by simp
        then show ?thesis
          using unchanged by simp
      next
        case (Some cur)
        define dirty where "dirty = (if flags cur AND PF_W = PF_W then TLBLO_DIRTY else 0)"
        have d: "dirty AND PAGE_FRAME = 0"
          by (simp add: dirty_def TLBLO_DIRTY_def PAGE_FRAME_def)
        show ?thesis
        proof (cases "flags cur AND PF_W \<noteq> PF_W \<and> faulttype = VM_FAULT_WRITE")
          case True
          with ne Some run have "curproc' = Some p \<and> k' = k"
            by auto
          then show ?thesis
            using unchanged by simp
        next
          case w: False
          obtain r1 pt1 k1 where cp: "create_pte pt (l1_index ?fa) (l2_index ?fa) dirty k = (r1, pt1, k1)"
            by (cases "create_pte pt (l1_index ?fa) (l2_index ?fa) dirty k") auto
          from create_pte_invariant [OF cp assms(4,5) d]
          have i1: "pt_invariant pt1 k1" and f1: "kpages_fresh k1"
            by simp_all
          from ne Some w cp run
          have res: "(if r1 \<noteq> OK
                      then (r1, Some (p\<lparr>p_addrspace := Some (as\<lparr>pagetable := Some pt1\<rparr>)\<rparr>), k1)
                      else vm_fault_tlb p as pt1 ?fa k1) = (r, curproc', k')"
            by (auto simp add: dirty_def Let_def split: if_splits)
          show ?thesis
          proof (cases "r1 = OK")
            case True
            with res have "vm_fault_tlb p as pt1 ?fa k1 = (r, curproc', k')"
              by simp
            from vm_fault_tlb_invariant [OF this i1 f1] show ?thesis
              by blast
          next
            case e: False
            with res
            have "curproc' = Some (p\<lparr>p_addrspace := Some (as\<lparr>pagetable := Some pt1\<rparr>)\<rparr>)"
              and "k' = k1"
              by simp_all
            with i1 f1 show ?thesis
              by simp
          qed
        qed
      qed
    qed
  qed
qed

text \<open>
  Whenever the inner loop of \<^verbatim>\<open>copy_pt\<close> fails, it returns ENOMEM and the copy holds,
  at some index, the non-zero entry of the original as it is.
\<close>

lemma copy_pt_l2_failure:
  "copy_pt_l2 ls msb ol2 pc cl2 k = (r, cl2', k') \<Longrightarrow> r \<noteq> OK
   \<Longrightarrow> r = ENOMEM \<and> (\<exists>lsb \<in> set ls. ol2 lsb \<noteq> 0 \<and> cl2' lsb = ol2 lsb)"
proof (induction ls arbitrary: cl2 k)
  case Nil
  then show ?case by simp
next
  case (Cons lsb rest)
  show ?case
  proof (cases "ol2 lsb = 0")
    case True
    with Cons.prems(1) have "copy_pt_l2 rest msb ol2 pc (cl2(lsb := 0)) k = (r, cl2', k')"
      by simp
    from Cons.IH [OF this Cons.prems(2)] show ?thesis
      by auto
  next
    case False
    obtain np k1 where al: "alloc_kpages k = (np, k1)"
      by (cases "alloc_kpages k") auto
    show ?thesis
    proof (cases "np = 0")
      case True
      with False al Cons.prems(1) show ?thesis
        by auto
    next
      case nz: False
      define e' where "e' = (KVADDR_TO_PADDR np AND PAGE_FRAME) OR (ol2 lsb AND TLBLO_DIRTY)
        OR TLBLO_VALID"
      define k2 where "k2 = snd (memmove np (PADDR_TO_KVADDR (ol2 lsb AND PAGE_FRAME)) (bzero np k1))"
      from False al nz Cons.prems(1)
      have "copy_pt_l2 rest msb ol2 pc (cl2(lsb := e')) k2 = (r, cl2', k')"
        by (simp add: memmove_def k2_def e'_def Let_def)
      from Cons.IH [OF this Cons.prems(2)] show ?thesis
        by auto
    qed
  qed
qed

subsection \<open>A copy after a failed copy\<close>

lemma destroy_pt_l2_frame:
  "mem (snd (destroy_pt_l2 ls l2 k)) = mem k
   \<and> junk_l1 (snd (destroy_pt_l2 ls l2 k)) = junk_l1 k
   \<and> junk_l2 (snd (destroy_pt_l2 ls l2 k)) = junk_l2 k"
  by (induction ls arbitrary: l2 k) (simp_all add: free_kpages_def)

lemma destroy_pt_l1_frame:
  "mem (destroy_pt_l1 ms pt k) = mem k
   \<and> junk_l1 (destroy_pt_l1 ms pt k) = junk_l1 k
   \<and> junk_l2 (destroy_pt_l1 ms pt k) = junk_l2 k"
proof (induction ms arbitrary: pt k)
  case Nil
  then show ?case by simp
next
  case (Cons m rest)
  show ?case
  proof (cases "pt m")
    case None
    with Cons.IH [of pt k] show ?thesis by simp
  next
    case (Some l2)
    obtain l2' k1 where d: "destroy_pt_l2 [0..<L2_PT_SIZE] l2 k = (l2', k1)"
      by (cases "destroy_pt_l2 [0..<L2_PT_SIZE] l2 k") auto
    have step: "destroy_pt_l1 (m # rest) pt k = destroy_pt_l1 rest (pt(m := Some l2')) (kfree k1)"
      using Some d by simp
    from destroy_pt_l2_frame [of "[0..<L2_PT_SIZE]" l2 k] d
    have k1: "mem (kfree k1) = mem k \<and> junk_l1 (kfree k1) = junk_l1 k
        \<and> junk_l2 (kfree k1) = junk_l2 k"
      by (simp add: kfree_def)
    have "mem (destroy_pt_l1 rest (pt(m := Some l2')) (kfree k1)) = mem (kfree k1)
        \<and> junk_l1 (destroy_pt_l1 rest (pt(m := Some l2')) (kfree k1)) = junk_l1 (kfree k1)
        \<and> junk_l2 (destroy_pt_l1 rest (pt(m := Some l2')) (kfree k1)) = junk_l2 (kfree k1)"
      by (rule Cons.IH)
    then show ?thesis
      unfolding step using k1 by (elim conjE) (intro conjI; simp only:)
  qed
qed

lemma fold_kfree_frame:
  "mem (fold (\<lambda>current. kfree) rs k) = mem k
   \<and> junk_l1 (fold (\<lambda>current. kfree) rs k) = junk_l1 k
   \<and> junk_l2 (fold (\<lambda>current. kfree) rs k) = junk_l2 k"
  by (induction rs arbitrary: k) (simp_all add: kfree_def)

lemma as_destroy_frame:
  "mem (as_destroy as k) = mem k \<and> junk_l1 (as_destroy as k) = junk_l1 k
   \<and> junk_l2 (as_destroy as k) = junk_l2 k"
proof (cases as)
  case None
  then show ?thesis by (simp add: as_destroy_def)
next
  case (Some a)
  show ?thesis
  proof (cases "pagetable a")
    case None
    with Some fold_kfree_frame [of "regions a" k] show ?thesis
      by (simp add: as_destroy_def destroy_pt_def kfree_def)
  next
    case pt: (Some t)
    from destroy_pt_l1_frame [of "[0..<L1_PT_SIZE]" t "fold (\<lambda>current. kfree) (regions a) k"]
      fold_kfree_frame [of "regions a" k] Some pt
    show ?thesis
      by (simp add: as_destroy_def destroy_pt_def kfree_def)
  qed
qed

lemma kernel_after_failed_copy_fields:
  "kmalloc_script kernel_after_failed_copy = [True, True, True, True]"
  "kpages_script kernel_after_failed_copy = [0x80010000]"
  "junk_l1 kernel_after_failed_copy = (\<lambda>_. None)"
  "junk_l2 kernel_after_failed_copy = (\<lambda>_. 0)"
  "mem kernel_after_failed_copy = (\<lambda>_. [])(0x80010000 := page_of_sevens)"
  unfolding kernel_after_failed_copy_def as_copy_no_page
  by (simp_all add: as_destroy_frame kernel_script_def kernel0_def)

lemma kernel_after_failed_copy_free: "0x80010000 \<notin> allocated kernel_after_failed_copy"
proof -
  let ?a = "\<lparr>pagetable = Some ((\<lambda>_. None)(2 := Some l2_one_page)),
             regions = [region_data], stackbase = USERSTACK\<rparr>"
  let ?k = "(kernel_script [])\<lparr>kmalloc_script := [], kheap := 4\<rparr>"
  have n: "l2_one_page 0 \<noteq> 0" and v: "l2_one_page 0 = 0x00010600"
    by (simp_all add: l2_one_page_def)
  have "frame_of (l2_one_page 0) \<notin> allocated (as_destroy (Some ?a) ?k)"
    by (rule as_destroy_frees [of ?a "(\<lambda>_. None)(2 := Some l2_one_page)" 2 l2_one_page 0 ?k])
      (simp_all add: L1_PT_SIZE_def L2_PT_SIZE_def n)
  then show ?thesis
    unfolding kernel_after_failed_copy_def as_copy_no_page
    by (simp add: v frame_of_one_page)
qed

lemma kernel_after_failed_copy_fresh: "kpages_fresh kernel_after_failed_copy"
  using kernel_after_failed_copy_free
  by (simp add: kpages_fresh_def kernel_after_failed_copy_fields PAGE_FRAME_def)

lemma as_copy_scenario_general:
  assumes "kmalloc_script k = [True, True, True, True]"
    and "junk_l1 k = (\<lambda>_. None)" and "junk_l2 k = (\<lambda>_. 0)"
  shows "as_copy addrspace_old k =
     (case copy_pt_l2 [0..<L2_PT_SIZE] 2 l2_one_page (\<lambda>_. None) (\<lambda>_. 0)
             (k\<lparr>kmalloc_script := [], kheap := 4 + kheap k\<rparr>) of
        (r, cl2, k') \<Rightarrow>
          if r = OK
          then (OK,
                Some \<lparr>pagetable = Some ((\<lambda>_. None)(2 := Some cl2)),
                      regions = [region_data], stackbase = USERSTACK\<rparr>,
                k')
          else (r, None,
                as_destroy (Some \<lparr>pagetable = Some ((\<lambda>_. None)(2 := Some cl2)),
                                   regions = [region_data], stackbase = USERSTACK\<rparr>) k'))"
proof -
  have same: "\<lparr>as_vbase = as_vbase region_data, size_r = size_r region_data,
               flags = flags region_data, og_flags = og_flags region_data\<rparr> = region_data"
    by (cases region_data) simp
  have p2: "pt_one_page 2 = Some l2_one_page"
    by (simp add: pt_one_page_def)
  show ?thesis
    by (simp add: as_copy_def as_create_def kmalloc_def assms
        addrspace_old_def copy_pt_def copy_pt_l1_one_page fold_clear_const same p2 Let_def
        split: prod.split)
qed

lemma as_copy_after_failed_copy_result:
  "as_copy addrspace_old kernel_after_failed_copy =
     (OK,
      Some \<lparr>pagetable = Some ((\<lambda>_. None)(2 := Some ((\<lambda>_. 0)(0 := 0x00010600)))),
            regions = [region_data], stackbase = USERSTACK\<rparr>,
      kernel_after_failed_copy
        \<lparr>kmalloc_script := [], kheap := 4 + kheap kernel_after_failed_copy,
          kpages_script := [],
          allocated := insert 0x80010000 (allocated kernel_after_failed_copy),
          mem := (\<lambda>_. [])(0x80010000 := replicate (unat PAGE_SIZE) 0)\<rparr>)"
proof -
  have z: "\<forall>i \<in> set [Suc 0..<L2_PT_SIZE]. l2_one_page i = 0"
    by (simp add: l2_one_page_def)
  have e: "(KVADDR_TO_PADDR 0x80010000 AND PAGE_FRAME) OR (l2_one_page 0 AND TLBLO_DIRTY)
             OR TLBLO_VALID = 0x00010600"
    by (simp add: KVADDR_TO_PADDR_def MIPS_KSEG0_def PAGE_FRAME_def l2_one_page_def
        TLBLO_DIRTY_def TLBLO_VALID_def)
  have s: "PADDR_TO_KVADDR (l2_one_page 0 AND PAGE_FRAME) = 0x80010000"
    by (simp add: PADDR_TO_KVADDR_def MIPS_KSEG0_def PAGE_FRAME_def l2_one_page_def)
  have n: "l2_one_page 0 \<noteq> 0"
    by (simp add: l2_one_page_def)
  note f = kernel_after_failed_copy_fields
  show ?thesis
    unfolding as_copy_scenario_general [OF f(1) f(3) f(4)] upt_L2_PT_SIZE
    by (simp add: alloc_kpages_def f copy_pt_l2_zeros [OF z] e s n memmove_def bzero_def
        fun_eq_iff)
qed

text \<open>
  C3, evaluated where it fails. The first copy of the one-page address space fails
  for want of a page and frees the page the source maps (the defect of C1). The
  allocator then has that page to give, and a second copy succeeds: it takes the
  source's own page as the new page, clears it and copies it onto itself. The
  entry of the copy is the entry of the source, with the same frame number, and
  the page of the source, full of sevens before, is full of zeros after.
\<close>

theorem as_copy_after_failed_copy:
  "fst (as_copy addrspace_old (kernel_script [])) = ENOMEM
   \<and> pagetable addrspace_old = Some pt_one_page
   \<and> pte pt_one_page 2 0 = 0x00010600
   \<and> frame_of (pte pt_one_page 2 0) \<notin> allocated kernel_after_failed_copy
   \<and> kpages_script kernel_after_failed_copy = [frame_of (pte pt_one_page 2 0)]
   \<and> mem kernel_after_failed_copy (frame_of (pte pt_one_page 2 0)) = page_of_sevens
   \<and> page_of_sevens \<noteq> replicate (unat PAGE_SIZE) 0
   \<and> (\<exists>new pn k'. as_copy addrspace_old kernel_after_failed_copy = (OK, Some new, k')
          \<and> pagetable new = Some pn
          \<and> pte pn 2 0 = pte pt_one_page 2 0
          \<and> pte pn 2 0 AND PAGE_FRAME = pte pt_one_page 2 0 AND PAGE_FRAME
          \<and> mem k' (frame_of (pte pt_one_page 2 0)) = replicate (unat PAGE_SIZE) 0)"
proof -
  let ?pn = "(\<lambda>_. None)(2 := Some ((\<lambda>_. 0)(0 := 0x00010600)))"
  let ?new = "\<lparr>pagetable = Some ?pn, regions = [region_data], stackbase = USERSTACK\<rparr>"
  let ?k' = "kernel_after_failed_copy
        \<lparr>kmalloc_script := [], kheap := 4 + kheap kernel_after_failed_copy,
          kpages_script := [],
          allocated := insert 0x80010000 (allocated kernel_after_failed_copy),
          mem := (\<lambda>_. [])(0x80010000 := replicate (unat PAGE_SIZE) 0)\<rparr>"
  have c1: "fst (as_copy addrspace_old (kernel_script [])) = ENOMEM"
    by (simp add: as_copy_no_page)
  have c2: "pagetable addrspace_old = Some pt_one_page"
    by (simp add: addrspace_old_def)
  have c3: "pte pt_one_page 2 0 = 0x00010600"
    by (simp add: pte_pt_one_page)
  have fo: "frame_of (pte pt_one_page 2 0) = 0x80010000"
    by (simp add: pte_pt_one_page frame_of_one_page)
  have c4: "frame_of (pte pt_one_page 2 0) \<notin> allocated kernel_after_failed_copy"
    unfolding fo by (rule kernel_after_failed_copy_free)
  have c5: "kpages_script kernel_after_failed_copy = [frame_of (pte pt_one_page 2 0)]"
    unfolding fo by (rule kernel_after_failed_copy_fields(2))
  have c6: "mem kernel_after_failed_copy (frame_of (pte pt_one_page 2 0)) = page_of_sevens"
    unfolding fo by (simp add: kernel_after_failed_copy_fields(5))
  have c7: "page_of_sevens \<noteq> replicate (unat PAGE_SIZE) 0"
    by (simp add: page_of_sevens_def PAGE_SIZE_def replicate_eq_replicate)
  have r: "as_copy addrspace_old kernel_after_failed_copy = (OK, Some ?new, ?k')"
    by (rule as_copy_after_failed_copy_result)
  have p: "pagetable ?new = Some ?pn"
    by simp
  have "pte ?pn 2 0 = 0x00010600"
    by (simp add: pte_def)
  then have e1: "pte ?pn 2 0 = pte pt_one_page 2 0"
    by (simp only: c3)
  then have e2: "pte ?pn 2 0 AND PAGE_FRAME = pte pt_one_page 2 0 AND PAGE_FRAME"
    by (simp only:)
  have m: "mem ?k' (frame_of (pte pt_one_page 2 0)) = replicate (unat PAGE_SIZE) 0"
    unfolding fo by simp
  have c8: "\<exists>new pn k'. as_copy addrspace_old kernel_after_failed_copy = (OK, Some new, k')
          \<and> pagetable new = Some pn
          \<and> pte pn 2 0 = pte pt_one_page 2 0
          \<and> pte pn 2 0 AND PAGE_FRAME = pte pt_one_page 2 0 AND PAGE_FRAME
          \<and> mem k' (frame_of (pte pt_one_page 2 0)) = replicate (unat PAGE_SIZE) 0"
    by (rule exI [of _ ?new], rule exI [of _ ?pn], rule exI [of _ ?k'])
      (intro conjI r p e1 e2 m)
  show ?thesis
    by (intro conjI c1 c2 c3 c4 c5 c6 c7 c8)
qed

end
